theory Spec2Isabelle
  imports Complex_Main "HOL-Library.AList"
begin

section \<open>Raw values, type descriptors and typed values\<close>

text \<open>
  The dynamic value handed to \<open>inferAttrType\<close> and \<open>convertToAttrValue\<close> is a Go
  \<open>interface{}\<close>. The constructors are the dynamic kinds the two functions tell apart:
  \<open>nil\<close>, \<open>bool\<close>, \<open>float64\<close>, the other numeric kinds of the type switch of
  \<open>inferAttrType\<close> (\<open>int\<close>, \<open>int8\<close>, \<open>int16\<close>, \<open>int32\<close>, \<open>int64\<close> as \<open>RInt\<close>,
  \<open>float32\<close> as \<open>RFloat32\<close>), \<open>string\<close>, \<open>[]interface{}\<close>, \<open>map[string]interface{}\<close>,
  and any other dynamic type, carried with the name that \<open>%T\<close> prints for it.
  A Go map is an association list: its order is the order in which \<open>range\<close> visits
  the keys (Go leaves it open), and \<open>m[key]\<close> is \<open>map_of\<close>. The code does no
  arithmetic on numbers, so a finite \<open>float64\<close> is carried as the real it denotes.
\<close>

datatype raw =
    RNil
  | RBool bool
  | RFloat64 real
  | RInt int
  | RFloat32 real
  | RString string
  | RSlice "raw list"
  | RMap "(string \<times> raw) list"
  | ROther string

text \<open>
  \<open>attr.Type\<close>: the descriptors of the plugin framework. \<open>BoolType\<close>, \<open>NumberType\<close>,
  \<open>StringType\<close> and \<open>DynamicType\<close> are field-less structs; \<open>ListType\<close> and \<open>MapType\<close>
  hold \<open>ElemType\<close>, \<open>TupleType\<close> holds the slice \<open>ElemTypes\<close>, \<open>ObjectType\<close> the map
  \<open>AttrTypes\<close>. \<open>Int64Type\<close>, \<open>Float64Type\<close> and \<open>SetType\<close> stand for the descriptors
  of the framework that \<open>convertToAttrValue\<close> has no case for. A value of this type is
  a non-nil descriptor whose components are non-nil.
\<close>

datatype attr_type =
    BoolType
  | NumberType
  | StringType
  | DynamicType
  | Int64Type
  | Float64Type
  | ListType attr_type
  | SetType attr_type
  | TupleType "attr_type list"
  | ObjectType "(string \<times> attr_type) list"
  | MapType attr_type

text \<open>
  \<open>attr.Value\<close>: every value of the framework is null, unknown or known. Only the
  states that the constructors used by the source can produce are listed.
  A value of this type is non-nil and so are its components (the constructors of
  the framework dereference every element, see \<open>ListValue\<close> below).
\<close>

datatype attr_value =
    BoolNull
  | BoolValue bool
  | NumberNull
  | NumberValue real
  | StringNull
  | StringValue string
  | ListNull attr_type
  | ListUnknown attr_type
  | ListKnown attr_type "attr_value list"
  | TupleNull "attr_type list"
  | TupleUnknown "attr_type list"
  | TupleKnown "attr_type list" "attr_value list"
  | ObjectNull "(string \<times> attr_type) list"
  | ObjectUnknown "(string \<times> attr_type) list"
  | ObjectKnown "(string \<times> attr_type) list" "(string \<times> attr_value) list"
  | MapUnknown attr_type
  | MapKnown attr_type "(string \<times> attr_value) list"
  | DynamicKnown attr_value

text \<open>\<open>Value.Type(ctx)\<close>.\<close>

fun type_of :: "attr_value \<Rightarrow> attr_type" where
  "type_of BoolNull = BoolType"
| "type_of (BoolValue b) = BoolType"
| "type_of NumberNull = NumberType"
| "type_of (NumberValue n) = NumberType"
| "type_of StringNull = StringType"
| "type_of (StringValue s) = StringType"
| "type_of (ListNull t) = ListType t"
| "type_of (ListUnknown t) = ListType t"
| "type_of (ListKnown t vs) = ListType t"
| "type_of (TupleNull ts) = TupleType ts"
| "type_of (TupleUnknown ts) = TupleType ts"
| "type_of (TupleKnown ts vs) = TupleType ts"
| "type_of (ObjectNull ats) = ObjectType ats"
| "type_of (ObjectUnknown ats) = ObjectType ats"
| "type_of (ObjectKnown ats avs) = ObjectType ats"
| "type_of (MapUnknown t) = MapType t"
| "type_of (MapKnown t avs) = MapType t"
| "type_of (DynamicKnown v) = DynamicType"

text \<open>\<open>Value.IsNull()\<close>.\<close>

fun IsNull :: "attr_value \<Rightarrow> bool" where
  "IsNull BoolNull = True"
| "IsNull NumberNull = True"
| "IsNull StringNull = True"
| "IsNull (ListNull t) = True"
| "IsNull (TupleNull ts) = True"
| "IsNull (ObjectNull ats) = True"
| "IsNull v = False"

text \<open>
  \<open>Type.Equal\<close> of the framework: the same dynamic type, equal element types,
  tuples index by index after a length test, objects key by key over the receiver's
  \<open>AttrTypes\<close> after a length test. \<open>reflect.DeepEqual\<close> on two descriptors built by
  \<open>inferAttrType\<close> (whose maps and slices are never nil) computes the same: the same
  dynamic type, slices of one length equal index by index, maps of one length whose
  keys carry deeply equal values.
\<close>

fun type_equal :: "attr_type \<Rightarrow> attr_type \<Rightarrow> bool"
and elems_equal :: "attr_type list \<Rightarrow> attr_type list \<Rightarrow> bool"
and attrs_equal :: "(string \<times> attr_type) list \<Rightarrow> (string \<times> attr_type) list \<Rightarrow> bool"
where
  "type_equal BoolType c = (c = BoolType)"
| "type_equal NumberType c = (c = NumberType)"
| "type_equal StringType c = (c = StringType)"
| "type_equal DynamicType c = (c = DynamicType)"
| "type_equal Int64Type c = (c = Int64Type)"
| "type_equal Float64Type c = (c = Float64Type)"
| "type_equal (ListType e) c = (case c of ListType e' \<Rightarrow> type_equal e e' | _ \<Rightarrow> False)"
| "type_equal (SetType e) c = (case c of SetType e' \<Rightarrow> type_equal e e' | _ \<Rightarrow> False)"
| "type_equal (MapType e) c = (case c of MapType e' \<Rightarrow> type_equal e e' | _ \<Rightarrow> False)"
| "type_equal (TupleType es) c =
     (case c of TupleType es' \<Rightarrow> length es = length es' \<and> elems_equal es es' | _ \<Rightarrow> False)"
| "type_equal (ObjectType ats) c =
     (case c of ObjectType ats' \<Rightarrow> length ats' = length ats \<and> attrs_equal ats ats'
      | _ \<Rightarrow> False)"
| "elems_equal [] es' = True"
| "elems_equal (e # es) [] = False"
| "elems_equal (e # es) (e' # es') = (type_equal e e' \<and> elems_equal es es')"
| "attrs_equal [] ats' = True"
| "attrs_equal ((k, v) # ats) ats' =
     (case map_of ats' k of None \<Rightarrow> False
      | Some a \<Rightarrow> type_equal v a \<and> attrs_equal ats ats')"

definition DeepEqual :: "attr_type \<Rightarrow> attr_type \<Rightarrow> bool" where
  "DeepEqual x y = type_equal x y"

text \<open>What \<open>%T\<close> prints for a descriptor.\<close>

fun type_name :: "attr_type \<Rightarrow> string" where
  "type_name BoolType = ''basetypes.BoolType''"
| "type_name NumberType = ''basetypes.NumberType''"
| "type_name StringType = ''basetypes.StringType''"
| "type_name DynamicType = ''basetypes.DynamicType''"
| "type_name Int64Type = ''basetypes.Int64Type''"
| "type_name Float64Type = ''basetypes.Float64Type''"
| "type_name (ListType e) = ''basetypes.ListType''"
| "type_name (SetType e) = ''basetypes.SetType''"
| "type_name (TupleType es) = ''basetypes.TupleType''"
| "type_name (ObjectType ats) = ''basetypes.ObjectType''"
| "type_name (MapType e) = ''basetypes.MapType''"

section \<open>Diagnostics\<close>

text \<open>
  \<open>diag.Diagnostics\<close> is a slice of diagnostics with a severity, a summary and a
  detail. \<open>Append\<close> skips a diagnostic that the collection already contains;
  \<open>AddError\<close> appends one error; \<open>HasError\<close> looks for an error severity.
\<close>

datatype severity = SeverityError | SeverityWarning

datatype diagnostic = Diagnostic severity string string

type_synonym diagnostics = "diagnostic list"

fun Append :: "diagnostics \<Rightarrow> diagnostics \<Rightarrow> diagnostics" where
  "Append diags [] = diags"
| "Append diags (d # rest) = Append (if d \<in> set diags then diags else diags @ [d]) rest"

definition AddError :: "diagnostics \<Rightarrow> string \<Rightarrow> string \<Rightarrow> diagnostics" where
  "AddError diags summary detail = Append diags [Diagnostic SeverityError summary detail]"

fun is_error :: "diagnostic \<Rightarrow> bool" where
  "is_error (Diagnostic s summary detail) = (s = SeverityError)"

definition HasError :: "diagnostics \<Rightarrow> bool" where
  "HasError diags = list_ex is_error diags"

text \<open>Decimal rendering of an index, as \<open>%d\<close> prints it.\<close>

function string_of_nat :: "nat \<Rightarrow> string" where
  "string_of_nat n =
     (if n < 10 then [char_of (48 + n)]
      else string_of_nat (n div 10) @ [char_of (48 + n mod 10)])"
  by pat_completeness auto
termination
  by (relation "measure id") auto

declare string_of_nat.simps [simp del]

section \<open>The value constructors of the framework\<close>

text \<open>
  \<open>types.ListValue\<close>, \<open>types.TupleValue\<close>, \<open>types.ObjectValue\<close> and \<open>types.MapValue\<close>
  belong to the plugin framework. Each starts from an empty collection of
  diagnostics of its own, calls \<open>Type(ctx)\<close> on every element it is given and compares
  it with the expected type; any error gives the unknown value of the type with those
  diagnostics, none gives the known value with no diagnostics. An element that is the
  nil interface makes the method call a nil dereference, a panic. \<open>IndexOutOfRange\<close> is
  the panic of \<open>ElemTypes[i]\<close> past the end, which the length tests in front of the
  tuple loops exclude. The detail text of a diagnostic is cut down to the index or name
  it reports.
\<close>

datatype panic = NilPointerDereference | IndexOutOfRange

fun list_check ::
  "attr_type \<Rightarrow> attr_value option list \<Rightarrow> nat \<Rightarrow> diagnostics \<Rightarrow> panic + diagnostics" where
  "list_check t [] idx diags = Inr diags"
| "list_check t (None # rest) idx diags = Inl NilPointerDereference"
| "list_check t (Some element # rest) idx diags =
     list_check t rest (Suc idx)
       (if type_equal t (type_of element) then diags
        else AddError diags ''Invalid List Element Type'' (string_of_nat idx))"

definition ListValue ::
  "attr_type \<Rightarrow> attr_value option list \<Rightarrow> panic + (attr_value \<times> diagnostics)" where
  "ListValue elementType elements =
     (case list_check elementType elements 0 [] of
        Inl p \<Rightarrow> Inl p
      | Inr diags \<Rightarrow>
          if HasError diags then Inr (ListUnknown elementType, diags)
          else Inr (ListKnown elementType (map the elements), []))"

fun tuple_check ::
  "attr_type list \<Rightarrow> attr_value option list \<Rightarrow> nat \<Rightarrow> diagnostics \<Rightarrow> panic + diagnostics" where
  "tuple_check ts [] idx diags = Inr diags"
| "tuple_check ts (None # rest) idx diags = Inl NilPointerDereference"
| "tuple_check [] (Some element # rest) idx diags = Inl IndexOutOfRange"
| "tuple_check (t # ts) (Some element # rest) idx diags =
     tuple_check ts rest (Suc idx)
       (if type_equal t (type_of element) then diags
        else AddError diags ''Invalid Tuple Element'' (string_of_nat idx))"

definition TupleValue ::
  "attr_type list \<Rightarrow> attr_value option list \<Rightarrow> panic + (attr_value \<times> diagnostics)" where
  "TupleValue elementTypes elements =
     (if length elementTypes \<noteq> length elements
      then Inr (TupleUnknown elementTypes, AddError [] ''Invalid Tuple Elements'' [])
      else case tuple_check elementTypes elements 0 [] of
        Inl p \<Rightarrow> Inl p
      | Inr diags \<Rightarrow>
          if HasError diags then Inr (TupleUnknown elementTypes, diags)
          else Inr (TupleKnown elementTypes (map the elements), []))"

fun object_check ::
  "(string \<times> attr_type) list \<Rightarrow> (string \<times> attr_value option) list \<Rightarrow> diagnostics
     \<Rightarrow> panic + diagnostics" where
  "object_check [] attributes diags = Inr diags"
| "object_check ((name, attributeType) # rest) attributes diags =
     (case map_of attributes name of
        None \<Rightarrow> object_check rest attributes
                  (AddError diags ''Missing Object Attribute Value'' name)
      | Some None \<Rightarrow> Inl NilPointerDereference
      | Some (Some attribute) \<Rightarrow>
          object_check rest attributes
            (if type_equal attributeType (type_of attribute) then diags
             else AddError diags ''Invalid Object Attribute Type'' name))"

fun object_extra ::
  "(string \<times> attr_value option) list \<Rightarrow> (string \<times> attr_type) list \<Rightarrow> diagnostics
     \<Rightarrow> diagnostics" where
  "object_extra [] attributeTypes diags = diags"
| "object_extra ((name, attribute) # rest) attributeTypes diags =
     object_extra rest attributeTypes
       (case map_of attributeTypes name of
          None \<Rightarrow> AddError diags ''Extra Object Attribute Value'' name
        | Some t \<Rightarrow> diags)"

definition ObjectValue ::
  "(string \<times> attr_type) list \<Rightarrow> (string \<times> attr_value option) list
     \<Rightarrow> panic + (attr_value \<times> diagnostics)" where
  "ObjectValue attributeTypes attributes =
     (case object_check attributeTypes attributes [] of
        Inl p \<Rightarrow> Inl p
      | Inr diags1 \<Rightarrow>
          let diags = object_extra attributes attributeTypes diags1 in
          if HasError diags then Inr (ObjectUnknown attributeTypes, diags)
          else Inr (ObjectKnown attributeTypes (map (\<lambda>(k, v). (k, the v)) attributes), []))"

fun map_check ::
  "attr_type \<Rightarrow> (string \<times> attr_value option) list \<Rightarrow> diagnostics \<Rightarrow> panic + diagnostics" where
  "map_check t [] diags = Inr diags"
| "map_check t ((key, None) # rest) diags = Inl NilPointerDereference"
| "map_check t ((key, Some element) # rest) diags =
     map_check t rest
       (if type_equal t (type_of element) then diags
        else AddError diags ''Invalid Map Element Type'' key)"

definition MapValue ::
  "attr_type \<Rightarrow> (string \<times> attr_value option) list \<Rightarrow> panic + (attr_value \<times> diagnostics)" where
  "MapValue elementType elements =
     (case map_check elementType elements [] of
        Inl p \<Rightarrow> Inl p
      | Inr diags \<Rightarrow>
          if HasError diags then Inr (MapUnknown elementType, diags)
          else Inr (MapKnown elementType (map (\<lambda>(k, v). (k, the v)) elements), []))"

section \<open>Type inference\<close>

text \<open>
  The errors of \<open>inferAttrType\<close>: \<open>fmt.Errorf("unsupported type %T", raw)\<close> and the
  wrapping \<open>fmt.Errorf("error inferring type for key %q: %w", key, err)\<close>.
\<close>

datatype infer_error =
    UnsupportedType string
  | KeyError string infer_error

text \<open>
  \<open>inferAttrType\<close>. The three loops of the function are functions of their own:
  \<open>homogeneous_loop\<close> is \<open>for i := 1; i < len(v); i++\<close> (given \<open>v[1:]\<close>; it returns the
  flag \<open>homogeneous\<close> and stops at the first mismatch), \<open>tuple_loop\<close> is
  \<open>for i, elem := range v\<close> filling \<open>tupleTypes\<close>, \<open>object_loop\<close> is
  \<open>for key, val := range v\<close> filling \<open>attrTypes\<close>.
\<close>

fun inferAttrType :: "raw \<Rightarrow> infer_error + attr_type"
and homogeneous_loop :: "attr_type \<Rightarrow> raw list \<Rightarrow> infer_error + bool"
and tuple_loop :: "raw list \<Rightarrow> attr_type list \<Rightarrow> infer_error + attr_type list"
and object_loop ::
  "(string \<times> raw) list \<Rightarrow> (string \<times> attr_type) list
     \<Rightarrow> infer_error + (string \<times> attr_type) list"
where
  "inferAttrType RNil = Inr StringType"
| "inferAttrType (RBool b) = Inr BoolType"
| "inferAttrType (RInt i) = Inr NumberType"
| "inferAttrType (RFloat32 x) = Inr NumberType"
| "inferAttrType (RFloat64 x) = Inr NumberType"
| "inferAttrType (RString s) = Inr StringType"
| "inferAttrType (RSlice []) = Inr (ListType DynamicType)"
| "inferAttrType (RSlice (v0 # rest)) =
     (case inferAttrType v0 of
        Inl err \<Rightarrow> Inl err
      | Inr firstType \<Rightarrow>
          (case homogeneous_loop firstType rest of
             Inl err \<Rightarrow> Inl err
           | Inr homogeneous \<Rightarrow>
               if homogeneous then Inr (ListType firstType)
               else (case tuple_loop (v0 # rest) [] of
                       Inl err \<Rightarrow> Inl err
                     | Inr tupleTypes \<Rightarrow> Inr (TupleType tupleTypes))))"
| "inferAttrType (RMap v) =
     (case object_loop v [] of
        Inl err \<Rightarrow> Inl err
      | Inr attrTypes \<Rightarrow> Inr (ObjectType attrTypes))"
| "inferAttrType (ROther name) = Inl (UnsupportedType name)"
| "homogeneous_loop firstType [] = Inr True"
| "homogeneous_loop firstType (vi # rest) =
     (case inferAttrType vi of
        Inl err \<Rightarrow> Inl err
      | Inr currType \<Rightarrow>
          if \<not> DeepEqual firstType currType then Inr False
          else homogeneous_loop firstType rest)"
| "tuple_loop [] tupleTypes = Inr tupleTypes"
| "tuple_loop (elem # rest) tupleTypes =
     (case inferAttrType elem of
        Inl err \<Rightarrow> Inl err
      | Inr t \<Rightarrow> tuple_loop rest (tupleTypes @ [t]))"
| "object_loop [] attrTypes = Inr attrTypes"
| "object_loop ((key, val) # rest) attrTypes =
     (case inferAttrType val of
        Inl err \<Rightarrow> Inl (KeyError key err)
      | Inr inferred \<Rightarrow> object_loop rest (AList.update key inferred attrTypes))"

section \<open>Conversion\<close>

text \<open>\<open>m[key]\<close> on a \<open>map[string]interface{}\<close>: the nil interface when the key is absent.\<close>

definition map_index :: "(string \<times> raw) list \<Rightarrow> string \<Rightarrow> raw" where
  "map_index m key = (case map_of m key of None \<Rightarrow> RNil | Some v \<Rightarrow> v)"

text \<open>
  The type assertions \<open>raw.(bool)\<close>, \<open>raw.(float64)\<close>, \<open>raw.(string)\<close>,
  \<open>raw.([]interface{})\<close> and \<open>raw.(map[string]interface{})\<close>: \<open>None\<close> is \<open>!ok\<close>.
\<close>

fun as_bool :: "raw \<Rightarrow> bool option" where
  "as_bool (RBool b) = Some b"
| "as_bool raw = None"

fun as_float64 :: "raw \<Rightarrow> real option" where
  "as_float64 (RFloat64 n) = Some n"
| "as_float64 raw = None"

fun as_string :: "raw \<Rightarrow> string option" where
  "as_string (RString s) = Some s"
| "as_string raw = None"

fun as_slice :: "raw \<Rightarrow> raw list option" where
  "as_slice (RSlice slice) = Some slice"
| "as_slice raw = None"

fun as_map :: "raw \<Rightarrow> (string \<times> raw) list option" where
  "as_map (RMap m) = Some m"
| "as_map raw = None"

text \<open>
  A call of a constructor of the framework in a \<open>return\<close> statement: the value becomes
  a non-nil \<open>attr.Value\<close> and the diagnostics of the constructor are the diagnostics
  returned.
\<close>

fun returning ::
  "panic + (attr_value \<times> diagnostics) \<Rightarrow> panic + (attr_value option \<times> diagnostics)" where
  "returning (Inl p) = Inl p"
| "returning (Inr (v, ds)) = Inr (Some v, ds)"

text \<open>
  \<open>convertToAttrValue\<close> returns an \<open>attr.Value\<close>, which is the nil interface on the
  last line of the function (\<open>None\<close> here), beside its diagnostics; \<open>Inl\<close> is a panic
  raised in a constructor of the framework. The four loops are functions of their
  own that carry \<open>diags\<close> and the collection being filled; the two loops with an
  early return give \<open>None\<close> for it.
\<close>

function convertToAttrValue ::
  "raw \<Rightarrow> attr_type \<Rightarrow> panic + (attr_value option \<times> diagnostics)"
and convert_list_loop ::
  "raw list \<Rightarrow> attr_type \<Rightarrow> diagnostics \<Rightarrow> attr_value option list
     \<Rightarrow> panic + (attr_value option list \<times> diagnostics)"
and convert_tuple_loop ::
  "raw list \<Rightarrow> attr_type list \<Rightarrow> diagnostics \<Rightarrow> attr_value option list
     \<Rightarrow> panic + (attr_value option list \<times> diagnostics)"
and convert_object_loop ::
  "(string \<times> attr_type) list \<Rightarrow> (string \<times> raw) list \<Rightarrow> diagnostics
     \<Rightarrow> (string \<times> attr_value option) list
     \<Rightarrow> panic + ((string \<times> attr_value option) list option \<times> diagnostics)"
and convert_map_loop ::
  "(string \<times> raw) list \<Rightarrow> attr_type \<Rightarrow> diagnostics
     \<Rightarrow> (string \<times> attr_value option) list
     \<Rightarrow> panic + ((string \<times> attr_value option) list option \<times> diagnostics)"
where
  "convertToAttrValue raw t =
     (if raw = RNil then Inr (Some StringNull, [])
      else if t = BoolType then
        (case as_bool raw of
           None \<Rightarrow> Inr (Some BoolNull, AddError [] ''Conversion Error'' ''expected bool'')
         | Some b \<Rightarrow> Inr (Some (BoolValue b), []))
      else if t = NumberType then
        (case as_float64 raw of
           None \<Rightarrow> Inr (Some NumberNull, AddError [] ''Conversion Error'' ''expected number'')
         | Some n \<Rightarrow> Inr (Some (NumberValue n), []))
      else if t = StringType then
        (case as_string raw of
           None \<Rightarrow> Inr (Some StringNull, AddError [] ''Conversion Error'' ''expected string'')
         | Some s \<Rightarrow> Inr (Some (StringValue s), []))
      else
        (case t of
           ListType ElemType \<Rightarrow>
             (case as_slice raw of
                None \<Rightarrow> Inr (Some (ListNull ElemType),
                          AddError [] ''Conversion Error'' ''expected slice for ListType'')
              | Some slice \<Rightarrow>
                  (case convert_list_loop slice ElemType [] [] of
                     Inl p \<Rightarrow> Inl p
                   | Inr (elems, diags) \<Rightarrow> returning (ListValue ElemType elems)))
         | TupleType ElemTypes \<Rightarrow>
             (case as_slice raw of
                None \<Rightarrow> Inr (Some (TupleNull ElemTypes),
                          AddError [] ''Conversion Error'' ''expected slice for TupleType'')
              | Some slice \<Rightarrow>
                  if length slice \<noteq> length ElemTypes
                  then Inr (Some (TupleNull ElemTypes),
                            AddError [] ''Conversion Error'' ''tuple length mismatch'')
                  else
                    (case convert_tuple_loop slice ElemTypes [] [] of
                       Inl p \<Rightarrow> Inl p
                     | Inr (elems, diags) \<Rightarrow> returning (TupleValue ElemTypes elems)))
         | ObjectType AttrTypes \<Rightarrow>
             (case as_map raw of
                None \<Rightarrow> Inr (Some (ObjectNull AttrTypes),
                          AddError [] ''Conversion Error'' ''expected map for ObjectType'')
              | Some m \<Rightarrow>
                  (case convert_object_loop AttrTypes m [] [] of
                     Inl p \<Rightarrow> Inl p
                   | Inr (None, diags) \<Rightarrow> Inr (Some (ObjectNull AttrTypes), diags)
                   | Inr (Some objValues, diags) \<Rightarrow>
                       returning (ObjectValue AttrTypes objValues)))
         | MapType ElemType \<Rightarrow>
             (case as_map raw of
                None \<Rightarrow> returning (MapValue ElemType [])
              | Some m \<Rightarrow>
                  (case convert_map_loop m ElemType [] [] of
                     Inl p \<Rightarrow> Inl p
                   | Inr (None, diags) \<Rightarrow> returning (MapValue ElemType [])
                   | Inr (Some mapValues, diags) \<Rightarrow>
                       returning (MapValue ElemType mapValues)))
         | _ \<Rightarrow>
             Inr (None,
               AddError [] ''Conversion Error'' (''unsupported type '' @ type_name t))))"
| "convert_list_loop [] ElemType diags elems = Inr (elems, diags)"
| "convert_list_loop (elem # rest) ElemType diags elems =
     (case convertToAttrValue elem ElemType of
        Inl p \<Rightarrow> Inl p
      | Inr (v, ds) \<Rightarrow> convert_list_loop rest ElemType (Append diags ds) (elems @ [v]))"
| "convert_tuple_loop [] ElemTypes diags elems = Inr (elems, diags)"
| "convert_tuple_loop (elem # rest) [] diags elems = Inl IndexOutOfRange"
| "convert_tuple_loop (elem # rest) (ti # ElemTypes) diags elems =
     (case convertToAttrValue elem ti of
        Inl p \<Rightarrow> Inl p
      | Inr (v, ds) \<Rightarrow> convert_tuple_loop rest ElemTypes (Append diags ds) (elems @ [v]))"
| "convert_object_loop [] m diags objValues = Inr (Some objValues, diags)"
| "convert_object_loop ((key, expectedType) # rest) m diags objValues =
     (case convertToAttrValue (map_index m key) expectedType of
        Inl p \<Rightarrow> Inl p
      | Inr (v, ds) \<Rightarrow>
          if HasError ds then Inr (None, Append diags ds)
          else convert_object_loop rest m (Append diags ds) (AList.update key v objValues))"
| "convert_map_loop [] ElemType diags mapValues = Inr (Some mapValues, diags)"
| "convert_map_loop ((key, val) # rest) ElemType diags mapValues =
     (case convertToAttrValue val ElemType of
        Inl p \<Rightarrow> Inl p
      | Inr (v, ds) \<Rightarrow>
          if HasError ds then Inr (None, Append diags ds)
          else convert_map_loop rest ElemType (Append diags ds) (AList.update key v mapValues))"
  by pat_completeness auto


termination
  by (relation "inv_image (less_than <*lex*> less_than)
        (\<lambda>x. case x of
            Inl (Inl (raw, t)) \<Rightarrow> (2 * size t, 0)
          | Inl (Inr (slice, et, acc)) \<Rightarrow> (2 * size et + 1, length slice)
          | Inr (Inl (slice, ets, acc)) \<Rightarrow> (2 * size_list size ets + 1, length slice)
          | Inr (Inr (Inl (ats, acc))) \<Rightarrow>
              (2 * size_list (size_prod (\<lambda>k. 0) size) ats + 1, 0)
          | Inr (Inr (Inr (m, et, acc))) \<Rightarrow> (2 * size et + 1, length m))")
    auto

declare convertToAttrValue.simps [simp del]

section \<open>The output loop of \<open>OutputDataSource.Read\<close>\<close>

text \<open>
  The part of \<open>Read\<close> from the four maps to the assignment of \<open>state.Values\<close> and
  \<open>state.NonSensitiveValues\<close>, as a function of the decoded \<open>outputs\<close> map and of the
  diagnostics \<open>resp.Diagnostics\<close> holds when the loop is reached. The four maps hold what
  the loop stores: \<open>attrType\<close> is the nil interface when \<open>inferAttrType\<close> returned an
  error (the error itself is assigned to \<open>_\<close>), \<open>attrValue\<close> is nil when
  \<open>convertToAttrValue\<close> returned nil (its diagnostics are assigned to \<open>_\<close>).
\<close>

record output_maps =
  sensitiveTypes :: "(string \<times> attr_type option) list"
  sensitiveValues :: "(string \<times> attr_value option) list"
  nonSensitiveTypes :: "(string \<times> attr_type option) list"
  nonSensitiveValues :: "(string \<times> attr_value option) list"

text \<open>
  \<open>convertToAttrValue(myOutput["value"], attrType)\<close> with the \<open>attrType\<close> that
  \<open>inferAttrType\<close> returned. With the nil descriptor the function passes the nil test
  on \<open>raw\<close>, fails the three comparisons and takes the \<open>default\<close> case of the type
  switch, where \<open>%T\<close> prints \<open><nil>\<close>.
\<close>

fun convert_inferred ::
  "raw \<Rightarrow> attr_type option \<Rightarrow> panic + (attr_value option \<times> diagnostics)" where
  "convert_inferred raw (Some attrType) = convertToAttrValue raw attrType"
| "convert_inferred raw None =
     (if raw = RNil then Inr (Some StringNull, [])
      else Inr (None, AddError [] ''Conversion Error'' ''unsupported type <nil>''))"

text \<open>
  \<open>for x := range outputs\<close>, over the keys in the order of the range. \<open>Inr None\<close> is
  the \<open>return\<close> after \<open>tflog.Error\<close> when \<open>outputs[x]\<close> is not a map.
\<close>

fun outputs_loop ::
  "string list \<Rightarrow> (string \<times> raw) list \<Rightarrow> output_maps \<Rightarrow> panic + output_maps option" where
  "outputs_loop [] outputs st = Inr (Some st)"
| "outputs_loop (x # rest) outputs st =
     (case as_map (map_index outputs x) of
        None \<Rightarrow> Inr None
      | Some myOutput \<Rightarrow>
          (let attrType = (case inferAttrType (map_index myOutput ''value'') of
                             Inl err \<Rightarrow> None | Inr t \<Rightarrow> Some t)
           in case convert_inferred (map_index myOutput ''value'') attrType of
                Inl p \<Rightarrow> Inl p
              | Inr (attrValue, ds) \<Rightarrow>
                  (let st1 = st\<lparr>sensitiveTypes := AList.update x attrType (sensitiveTypes st),
                                sensitiveValues := AList.update x attrValue (sensitiveValues st)\<rparr>;
                       st2 = (if map_index myOutput ''sensitive'' = RBool False
                              then st1\<lparr>nonSensitiveTypes :=
                                         AList.update x attrType (nonSensitiveTypes st1),
                                       nonSensitiveValues :=
                                         AList.update x attrValue (nonSensitiveValues st1)\<rparr>
                              else st1)
                   in outputs_loop rest outputs st2)))"

text \<open>
  \<open>types.ObjectValue\<close> on maps of the loop. The loop stores a nil descriptor only
  beside a nil value under the same key, and \<open>ObjectValue\<close> calls \<open>Type(ctx)\<close> on that
  value: a nil dereference.
\<close>

fun non_nil_types :: "(string \<times> attr_type option) list \<Rightarrow> (string \<times> attr_type) list option" where
  "non_nil_types [] = Some []"
| "non_nil_types ((k, None) # rest) = None"
| "non_nil_types ((k, Some t) # rest) =
     (case non_nil_types rest of None \<Rightarrow> None | Some ts \<Rightarrow> Some ((k, t) # ts))"

definition ObjectValue_of_maps ::
  "(string \<times> attr_type option) list \<Rightarrow> (string \<times> attr_value option) list
     \<Rightarrow> panic + (attr_value \<times> diagnostics)" where
  "ObjectValue_of_maps ts vs =
     (case non_nil_types ts of
        None \<Rightarrow> Inl NilPointerDereference
      | Some attributeTypes \<Rightarrow> ObjectValue attributeTypes vs)"

text \<open>
  The outcome: \<open>Returned\<close> is a \<open>return\<close> that leaves the state unset, with the
  diagnostics of the response; \<open>StateSet\<close> carries \<open>state.Values\<close>,
  \<open>state.NonSensitiveValues\<close> and the diagnostics. The calls of \<open>tflog\<close> only write
  to the log and \<open>resp.State.Set\<close> belongs to the framework; neither is part of the
  model.
\<close>

datatype read_outcome =
    Returned diagnostics
  | StateSet attr_value attr_value diagnostics

definition Read_outputs :: "(string \<times> raw) list \<Rightarrow> diagnostics \<Rightarrow> panic + read_outcome" where
  "Read_outputs outputs respDiagnostics =
     (case outputs_loop (map fst outputs) outputs
             \<lparr>sensitiveTypes = [], sensitiveValues = [],
              nonSensitiveTypes = [], nonSensitiveValues = []\<rparr> of
        Inl p \<Rightarrow> Inl p
      | Inr None \<Rightarrow> Inr (Returned respDiagnostics)
      | Inr (Some st) \<Rightarrow>
          (case ObjectValue_of_maps (sensitiveTypes st) (sensitiveValues st) of
             Inl p \<Rightarrow> Inl p
           | Inr (obj, diags) \<Rightarrow>
               (let resp1 = Append respDiagnostics diags in
                if HasError resp1 then Inr (Returned resp1)
                else
                  (case ObjectValue_of_maps (nonSensitiveTypes st) (nonSensitiveValues st) of
                     Inl p \<Rightarrow> Inl p
                   | Inr (obj', diags') \<Rightarrow>
                       (let resp2 = Append resp1 diags' in
                        if HasError resp2 then Inr (Returned resp2)
                        else Inr (StateSet (DynamicKnown obj) (DynamicKnown obj') resp2))))))"


section \<open>Predicates used in the statements\<close>

text \<open>
  The descriptors that \<open>convertToAttrValue\<close> has a branch for: the three comparisons
  with \<open>types.BoolType\<close>, \<open>types.NumberType\<close>, \<open>types.StringType\<close> and the four cases
  of the type switch. Every other descriptor falls to \<open>default\<close>.
\<close>

fun has_conversion_rule :: "attr_type \<Rightarrow> bool" where
  "has_conversion_rule BoolType = True"
| "has_conversion_rule NumberType = True"
| "has_conversion_rule StringType = True"
| "has_conversion_rule (ListType e) = True"
| "has_conversion_rule (TupleType es) = True"
| "has_conversion_rule (ObjectType ats) = True"
| "has_conversion_rule (MapType e) = True"
| "has_conversion_rule t = False"

text \<open>
  A Go map holds each key once: in a descriptor every \<open>AttrTypes\<close> has distinct keys.
\<close>

fun wf_type :: "attr_type \<Rightarrow> bool" where
  "wf_type (ListType e) = wf_type e"
| "wf_type (SetType e) = wf_type e"
| "wf_type (MapType e) = wf_type e"
| "wf_type (TupleType es) = list_all wf_type es"
| "wf_type (ObjectType ats) = (distinct (map fst ats) \<and> list_all wf_type (map snd ats))"
| "wf_type t = True"

text \<open>
  The values that \<open>json.Unmarshal\<close> puts into an \<open>interface{}\<close>: \<open>nil\<close>, \<open>bool\<close>,
  \<open>float64\<close>, \<open>string\<close>, \<open>[]interface{}\<close> and \<open>map[string]interface{}\<close> (each key once)
  of such values. These are the values \<open>Read\<close> hands to the two functions.
\<close>

fun json_decoded :: "raw \<Rightarrow> bool" where
  "json_decoded RNil = True"
| "json_decoded (RBool b) = True"
| "json_decoded (RFloat64 n) = True"
| "json_decoded (RString s) = True"
| "json_decoded (RSlice xs) = list_all json_decoded xs"
| "json_decoded (RMap m) = (distinct (map fst m) \<and> list_all json_decoded (map snd m))"
| "json_decoded (RInt i) = False"
| "json_decoded (RFloat32 x) = False"
| "json_decoded (ROther name) = False"

text \<open>
  The shape relation of the specification between a raw value and a typed value: the
  same kind at every level (a null value for null, the wrapped scalar for a scalar, a
  known list or tuple for a sequence, a known object for a mapping), sequences of one
  length related element by element, objects with the key set of the mapping whose
  fields are related key by key.
\<close>

fun mirrors :: "raw \<Rightarrow> attr_value \<Rightarrow> bool"
and mirrors_elems :: "raw list \<Rightarrow> attr_value list \<Rightarrow> bool"
and mirrors_fields :: "(string \<times> raw) list \<Rightarrow> (string \<times> attr_value) list \<Rightarrow> bool"
where
  "mirrors RNil val = IsNull val"
| "mirrors (RBool b) val = (val = BoolValue b)"
| "mirrors (RFloat64 n) val = (val = NumberValue n)"
| "mirrors (RInt i) val = (val = NumberValue (of_int i))"
| "mirrors (RFloat32 x) val = (val = NumberValue x)"
| "mirrors (RString s) val = (val = StringValue s)"
| "mirrors (RSlice xs) val =
     (case val of
        ListKnown t vs \<Rightarrow> mirrors_elems xs vs
      | TupleKnown ts vs \<Rightarrow> mirrors_elems xs vs
      | _ \<Rightarrow> False)"
| "mirrors (RMap m) val =
     (case val of
        ObjectKnown ats avs \<Rightarrow> set (map fst avs) = set (map fst m) \<and> mirrors_fields m avs
      | _ \<Rightarrow> False)"
| "mirrors (ROther name) val = False"
| "mirrors_elems [] vs = (vs = [])"
| "mirrors_elems (x # xs) vs =
     (case vs of [] \<Rightarrow> False | v # vs' \<Rightarrow> mirrors x v \<and> mirrors_elems xs vs')"
| "mirrors_fields [] avs = True"
| "mirrors_fields ((k, x) # m) avs =
     (case map_of avs k of None \<Rightarrow> False | Some v \<Rightarrow> mirrors x v \<and> mirrors_fields m avs)"

text \<open>
  The value \<open>convertToAttrValue\<close> returns, as in \<open>attrValue, _ := convertToAttrValue(...)\<close>,
  and the conversions that return it with no diagnostics, of the target type and of the
  shape of the raw value.
\<close>

definition converted :: "raw \<Rightarrow> attr_type \<Rightarrow> attr_value" where
  "converted v t = (case convertToAttrValue v t of Inr (Some val, ds) \<Rightarrow> val | _ \<Rightarrow> StringNull)"

definition clean :: "raw \<Rightarrow> attr_type \<Rightarrow> bool" where
  "clean v t \<longleftrightarrow>
     convertToAttrValue v t = Inr (Some (converted v t), []) \<and>
     type_of (converted v t) = t \<and> mirrors v (converted v t)"

text \<open>
  The descriptors built, at every level, from the kinds \<open>convertToAttrValue\<close> has a
  branch for, and the test \<open>ds.HasError()\<close> on the diagnostics that the conversion of a
  field returns.
\<close>

fun convertible :: "attr_type \<Rightarrow> bool" where
  "convertible BoolType = True"
| "convertible NumberType = True"
| "convertible StringType = True"
| "convertible (ListType e) = convertible e"
| "convertible (TupleType es) = list_all convertible es"
| "convertible (ObjectType ats) = list_all convertible (map snd ats)"
| "convertible (MapType e) = convertible e"
| "convertible t = False"

definition reports_error :: "raw \<Rightarrow> attr_type \<Rightarrow> bool" where
  "reports_error x t =
     (case convertToAttrValue x t of Inl p \<Rightarrow> False | Inr (v, ds) \<Rightarrow> HasError ds)"

text \<open>
  \<open>myOutput["value"]\<close> and \<open>myOutput["sensitive"]\<close> of an entry of \<open>outputs\<close>, and the
  descriptor and the value the loop of \<open>Read\<close> computes for the entry.
\<close>

fun value_field :: "raw \<Rightarrow> raw" where
  "value_field (RMap myOutput) = map_index myOutput ''value''"
| "value_field out = RNil"

fun sensitive_field :: "raw \<Rightarrow> raw" where
  "sensitive_field (RMap myOutput) = map_index myOutput ''sensitive''"
| "sensitive_field out = RNil"

definition output_type :: "raw \<Rightarrow> attr_type" where
  "output_type out = projr (inferAttrType (value_field out))"

definition output_value :: "raw \<Rightarrow> attr_value" where
  "output_value out = converted (value_field out) (output_type out)"

section \<open>Diagnostics and association lists\<close>

lemma AddError_Nil [simp]:
  "AddError [] summary detail = [Diagnostic SeverityError summary detail]"
  by (simp add: AddError_def)

lemma HasError_simps [simp]:
  "HasError [] = False"
  "HasError (d # ds) = (is_error d \<or> HasError ds)"
  by (simp_all add: HasError_def)

lemma Append_Nil2 [simp]: "Append diags [] = diags"
  by simp

lemma set_Append: "set (Append diags ds) = set diags \<union> set ds"
  by (induction ds arbitrary: diags) auto

lemma HasError_Append: "HasError (Append diags ds) = (HasError diags \<or> HasError ds)"
  by (auto simp: HasError_def list_ex_iff set_Append)

lemma update_fresh: "k \<notin> fst ` set al \<Longrightarrow> AList.update k v al = al @ [(k, v)]"
  by (induction al) auto

lemma map_index_distinct:
  "distinct (map fst m) \<Longrightarrow> (k, v) \<in> set m \<Longrightarrow> map_index m k = v"
  by (simp add: map_index_def)

lemma map_of_map_entry:
  "distinct (map fst L) \<Longrightarrow> (x, out) \<in> set L \<Longrightarrow>
     map_of (map (\<lambda>(x, out). (x, g out)) L) x = Some (g out)"
  by (induction L) (auto simp: rev_image_eqI)

section \<open>Equality of descriptors\<close>

lemma elems_equal_iff:
  "length es = length es' \<Longrightarrow> elems_equal es es' = list_all2 type_equal es es'"
  by (induction es es' rule: list_induct2) auto

lemma attrs_equal_iff:
  "attrs_equal ats ats' = (\<forall>(k, v) \<in> set ats. \<exists>a. map_of ats' k = Some a \<and> type_equal v a)"
  by (induction ats) (auto split: option.splits)

lemma type_equal_refl: "wf_type t \<Longrightarrow> type_equal t t"
proof (induction t)
  case (TupleType es)
  then have "list_all2 type_equal es es"
    by (auto simp: list_all2_conv_all_nth list_all_iff)
  then show ?case by (simp add: elems_equal_iff)
next
  case (ObjectType ats)
  have "\<exists>a. map_of ats k = Some a \<and> type_equal v a" if "(k, v) \<in> set ats" for k v
  proof -
    have "map_of ats k = Some v" using that ObjectType.prems by simp
    moreover have "type_equal v v"
      using that ObjectType by (fastforce simp: list_all_iff)
    ultimately show ?thesis by simp
  qed
  then show ?case by (auto simp: attrs_equal_iff)
qed simp_all

lemma type_equal_trans: "type_equal a b \<Longrightarrow> type_equal b c \<Longrightarrow> type_equal a c"
proof (induction a arbitrary: b c)
  case (ListType a)
  then show ?case by (auto split: attr_type.splits)
next
  case (SetType a)
  then show ?case by (auto split: attr_type.splits)
next
  case (MapType a)
  then show ?case by (auto split: attr_type.splits)
next
  case (TupleType es)
  from TupleType.prems obtain es' es'' where b: "b = TupleType es'" and c: "c = TupleType es''"
    and l: "length es = length es'" "length es' = length es''"
    and e1: "elems_equal es es'" and e2: "elems_equal es' es''"
    by (auto split: attr_type.splits)
  have "type_equal (es ! i) (es'' ! i)" if "i < length es" for i
  proof -
    have "type_equal (es ! i) (es' ! i)" "type_equal (es' ! i) (es'' ! i)"
      using e1 e2 l that by (auto simp: elems_equal_iff list_all2_conv_all_nth)
    then show ?thesis using TupleType.IH [of "es ! i"] that by auto
  qed
  then have "list_all2 type_equal es es''" using l by (simp add: list_all2_conv_all_nth)
  then show ?case using l by (simp add: b c elems_equal_iff)
next
  case (ObjectType ats)
  from ObjectType.prems obtain ats' ats'' where b: "b = ObjectType ats'" and c: "c = ObjectType ats''"
    and l: "length ats' = length ats" "length ats'' = length ats'"
    and e1: "attrs_equal ats ats'" and e2: "attrs_equal ats' ats''"
    by (auto split: attr_type.splits)
  have "\<exists>a. map_of ats'' k = Some a \<and> type_equal v a" if kv: "(k, v) \<in> set ats" for k v
  proof -
    from e1 kv obtain w where w: "map_of ats' k = Some w" "type_equal v w"
      by (auto simp: attrs_equal_iff)
    then have "(k, w) \<in> set ats'" by (simp add: map_of_SomeD)
    with e2 obtain u where u: "map_of ats'' k = Some u" "type_equal w u"
      by (auto simp: attrs_equal_iff)
    have "type_equal v u" using ObjectType.IH [of "(k, v)" v w u] kv w u by auto
    with u show ?thesis by simp
  qed
  then show ?case using l by (auto simp: b c attrs_equal_iff)
qed auto

lemma type_equal_StringD: "type_equal t StringType \<Longrightarrow> t = StringType"
  by (cases t) auto

lemma type_equal_BoolD: "type_equal t BoolType \<Longrightarrow> t = BoolType"
  by (cases t) auto

lemma type_equal_NumberD: "type_equal t NumberType \<Longrightarrow> t = NumberType"
  by (cases t) auto

lemma type_equal_DynamicD: "type_equal t DynamicType \<Longrightarrow> t = DynamicType"
  by (cases t) auto

lemma type_equal_ListD:
  "type_equal t (ListType e) \<Longrightarrow> \<exists>e'. t = ListType e' \<and> type_equal e' e"
  by (cases t) auto

lemma type_equal_TupleD:
  "type_equal t (TupleType es) \<Longrightarrow> \<exists>es'. t = TupleType es' \<and> list_all2 type_equal es' es"
  by (cases t) (auto simp: elems_equal_iff)

lemma type_equal_ObjectD:
  "type_equal t (ObjectType ats) \<Longrightarrow>
     \<exists>ats'. t = ObjectType ats' \<and> length ats' = length ats \<and> attrs_equal ats' ats"
  by (cases t) auto

section \<open>The loops of inference\<close>

lemma homogeneous_loop_all:
  "map inferAttrType xs = map Inr ts \<Longrightarrow>
     homogeneous_loop t xs = Inr (list_all (DeepEqual t) ts)"
proof (induction xs arbitrary: ts)
  case Nil
  then show ?case by simp
next
  case (Cons x xs)
  then obtain u us where ts: "ts = u # us" and x: "inferAttrType x = Inr u"
    and xs: "map inferAttrType xs = map Inr us"
    by (cases ts) auto
  show ?case using Cons.IH [OF xs] by (simp add: ts x)
qed

lemma tuple_loop_all:
  "map inferAttrType xs = map Inr ts \<Longrightarrow> tuple_loop xs acc = Inr (acc @ ts)"
proof (induction xs arbitrary: ts acc)
  case Nil
  then show ?case by simp
next
  case (Cons x xs)
  then obtain u us where ts: "ts = u # us" and x: "inferAttrType x = Inr u"
    and xs: "map inferAttrType xs = map Inr us"
    by (cases ts) auto
  show ?case using Cons.IH [OF xs, of "acc @ [u]"] by (simp add: ts x)
qed

lemma infer_elems:
  "\<forall>x \<in> set xs. \<exists>t. inferAttrType x = Inr t \<Longrightarrow>
     map inferAttrType xs = map Inr (map (projr \<circ> inferAttrType) xs)"
  by (induction xs) auto

lemma infer_slice_Cons:
  "inferAttrType x = Inr t \<Longrightarrow> map inferAttrType xs = map Inr ts \<Longrightarrow>
     inferAttrType (RSlice (x # xs)) =
       Inr (if list_all (DeepEqual t) ts then ListType t else TupleType (t # ts))"
  using tuple_loop_all [of "x # xs" "t # ts" "[]"]
  by (auto simp: homogeneous_loop_all)

lemma object_loop_all:
  "\<forall>(k, v) \<in> set m. \<exists>t. inferAttrType v = Inr t \<Longrightarrow> distinct (map fst m) \<Longrightarrow>
   fst ` set acc \<inter> fst ` set m = {} \<Longrightarrow>
     object_loop m acc = Inr (acc @ map (\<lambda>(k, v). (k, projr (inferAttrType v))) m)"
proof (induction m arbitrary: acc)
  case Nil
  then show ?case by simp
next
  case (Cons a m)
  obtain k v where a: "a = (k, v)" by (cases a)
  from Cons.prems(1) obtain t where t: "inferAttrType v = Inr t" by (auto simp: a)
  have fresh: "k \<notin> fst ` set acc" using Cons.prems(3) by (auto simp: a)
  have disj: "fst ` set (acc @ [(k, t)]) \<inter> fst ` set m = {}"
    using Cons.prems(2,3) by (auto simp: a)
  have rest: "\<forall>(k, v) \<in> set m. \<exists>t. inferAttrType v = Inr t" using Cons.prems(1) by auto
  from Cons.IH [OF rest _ disj] Cons.prems(2)
  show ?case by (simp add: a t update_fresh [OF fresh])
qed

lemma infer_map:
  "\<forall>(k, v) \<in> set m. \<exists>t. inferAttrType v = Inr t \<Longrightarrow> distinct (map fst m) \<Longrightarrow>
     inferAttrType (RMap m) = Inr (ObjectType (map (\<lambda>(k, v). (k, projr (inferAttrType v))) m))"
  using object_loop_all [of m "[]"] by simp

section \<open>The loops of conversion and the constructors\<close>

lemma conv_list:
  "convertToAttrValue (RSlice xs) (ListType e) =
     (case convert_list_loop xs e [] [] of
        Inl p \<Rightarrow> Inl p
      | Inr (elems, diags) \<Rightarrow> returning (ListValue e elems))"
  by (simp add: convertToAttrValue.simps)

lemma conv_tuple:
  "convertToAttrValue (RSlice xs) (TupleType es) =
     (if length xs \<noteq> length es
      then Inr (Some (TupleNull es), AddError [] ''Conversion Error'' ''tuple length mismatch'')
      else case convert_tuple_loop xs es [] [] of
        Inl p \<Rightarrow> Inl p
      | Inr (elems, diags) \<Rightarrow> returning (TupleValue es elems))"
  by (simp add: convertToAttrValue.simps)

lemma conv_object:
  "convertToAttrValue (RMap m) (ObjectType ats) =
     (case convert_object_loop ats m [] [] of
        Inl p \<Rightarrow> Inl p
      | Inr (None, diags) \<Rightarrow> Inr (Some (ObjectNull ats), diags)
      | Inr (Some objValues, diags) \<Rightarrow> returning (ObjectValue ats objValues))"
  by (simp add: convertToAttrValue.simps)

lemma list_loop_all:
  "list_all2 (\<lambda>x r. convertToAttrValue x e = Inr r) xs rs \<Longrightarrow>
     \<exists>ds. convert_list_loop xs e d0 e0 = Inr (e0 @ map fst rs, ds)"
proof (induction xs rs arbitrary: d0 e0 rule: list_all2_induct)
  case Nil
  then show ?case by simp
next
  case (Cons x xs r rs)
  obtain v ds where r: "r = (v, ds)" by (cases r)
  show ?case using Cons.IH [of "Append d0 ds" "e0 @ [v]"] Cons.hyps(1) by (simp add: r)
qed

lemma list_loop_values:
  "list_all2 (\<lambda>x v. \<exists>ds. convertToAttrValue x e = Inr (Some v, ds)) xs vs \<Longrightarrow>
     \<exists>ds. convert_list_loop xs e d0 e0 = Inr (e0 @ map Some vs, ds)"
proof (induction xs vs arbitrary: d0 e0 rule: list_all2_induct)
  case Nil
  then show ?case by simp
next
  case (Cons x xs v vs)
  from Cons.hyps(1) obtain ds where "convertToAttrValue x e = Inr (Some v, ds)" by auto
  then show ?case using Cons.IH [of "Append d0 ds" "e0 @ [Some v]"] by simp
qed

lemma tuple_loop_conv_all:
  "length xs = length ts \<Longrightarrow> length ts = length rs \<Longrightarrow>
   (\<forall>i<length xs. convertToAttrValue (xs ! i) (ts ! i) = Inr (rs ! i)) \<Longrightarrow>
     \<exists>ds. convert_tuple_loop xs ts d0 e0 = Inr (e0 @ map fst rs, ds)"
proof (induction xs ts rs arbitrary: d0 e0 rule: list_induct3)
  case Nil
  then show ?case by simp
next
  case (Cons x xs t ts r rs)
  obtain v ds where r: "r = (v, ds)" by (cases r)
  have hd: "convertToAttrValue x t = Inr (v, ds)" using Cons.prems r by force
  have tl: "\<forall>i<length xs. convertToAttrValue (xs ! i) (ts ! i) = Inr (rs ! i)"
    using Cons.prems by force
  show ?case using Cons.IH [OF tl, of "Append d0 ds" "e0 @ [v]"] hd by (simp add: r)
qed

lemma tuple_loop_values:
  "length xs = length es \<Longrightarrow> length es = length vs \<Longrightarrow>
   (\<forall>i<length es. \<exists>ds. convertToAttrValue (xs ! i) (es ! i) = Inr (Some (vs ! i), ds)) \<Longrightarrow>
     \<exists>ds. convert_tuple_loop xs es d0 e0 = Inr (e0 @ map Some vs, ds)"
proof (induction xs es vs arbitrary: d0 e0 rule: list_induct3)
  case Nil
  then show ?case by simp
next
  case (Cons x xs t ts v vs)
  from Cons.prems obtain ds where hd: "convertToAttrValue x t = Inr (Some v, ds)" by force
  have tl: "\<forall>i<length ts. \<exists>ds. convertToAttrValue (xs ! i) (ts ! i) = Inr (Some (vs ! i), ds)"
    using Cons.prems by force
  show ?case using Cons.IH [OF tl, of "Append d0 ds" "e0 @ [Some v]"] hd by simp
qed

lemma object_loop_conv_all:
  "(\<forall>(k, t) \<in> set ats. \<exists>ds. convertToAttrValue (map_index m k) t = Inr (Some (f k), ds)
       \<and> \<not> HasError ds) \<Longrightarrow>
   distinct (map fst ats) \<Longrightarrow> fst ` set o0 \<inter> fst ` set ats = {} \<Longrightarrow>
     \<exists>ds. convert_object_loop ats m d0 o0 =
       Inr (Some (o0 @ map (\<lambda>(k, t). (k, Some (f k))) ats), ds)"
proof (induction ats arbitrary: d0 o0)
  case Nil
  then show ?case by simp
next
  case (Cons a ats)
  obtain k t where a: "a = (k, t)" by (cases a)
  from Cons.prems(1) obtain ds where
    hd: "convertToAttrValue (map_index m k) t = Inr (Some (f k), ds)" "\<not> HasError ds"
    by (auto simp: a)
  have fresh: "k \<notin> fst ` set o0" using Cons.prems(3) by (auto simp: a)
  have disj: "fst ` set (o0 @ [(k, Some (f k))]) \<inter> fst ` set ats = {}"
    using Cons.prems(2,3) by (auto simp: a)
  have rest: "\<forall>(k, t) \<in> set ats. \<exists>ds. convertToAttrValue (map_index m k) t = Inr (Some (f k), ds)
       \<and> \<not> HasError ds"
    using Cons.prems(1) by auto
  from Cons.IH [OF rest _ disj, of "Append d0 ds"] Cons.prems(2)
  show ?case by (simp add: a hd update_fresh [OF fresh])
qed

lemma object_loop_only_declared:
  "\<forall>k \<in> fst ` set ats. map_of m k = map_of m' k \<Longrightarrow>
     convert_object_loop ats m d o0 = convert_object_loop ats m' d o0"
proof (induction ats arbitrary: d o0)
  case Nil
  then show ?case by simp
next
  case (Cons a ats)
  obtain k t where a: "a = (k, t)" by (cases a)
  have mi: "map_index m k = map_index m' k" using Cons.prems by (simp add: a map_index_def)
  have "\<forall>k \<in> fst ` set ats. map_of m k = map_of m' k" using Cons.prems by simp
  then have IH: "convert_object_loop ats m d' o' = convert_object_loop ats m' d' o'" for d' o'
    by (rule Cons.IH)
  show ?case by (simp add: a mi IH split: sum.split prod.split)
qed

lemma object_loop_error:
  "\<forall>(k, t) \<in> set ats. \<exists>r. convertToAttrValue (map_index m k) t = Inr r \<Longrightarrow>
   \<exists>(k, t) \<in> set ats. \<exists>v ds. convertToAttrValue (map_index m k) t = Inr (v, ds) \<and> HasError ds \<Longrightarrow>
     \<exists>ds. convert_object_loop ats m d0 o0 = Inr (None, ds) \<and> HasError ds"
proof (induction ats arbitrary: d0 o0)
  case Nil
  then show ?case by simp
next
  case (Cons a ats)
  obtain k t where a: "a = (k, t)" by (cases a)
  from Cons.prems(1) obtain v ds where r: "convertToAttrValue (map_index m k) t = Inr (v, ds)"
    by (fastforce simp: a)
  show ?case
  proof (cases "HasError ds")
    case True
    then show ?thesis by (simp add: a r HasError_Append)
  next
    case False
    have "\<forall>(k, t) \<in> set ats. \<exists>r. convertToAttrValue (map_index m k) t = Inr r"
      using Cons.prems(1) by simp
    moreover have "\<exists>(k, t) \<in> set ats. \<exists>v ds.
        convertToAttrValue (map_index m k) t = Inr (v, ds) \<and> HasError ds"
      using Cons.prems(2) False r by (auto simp: a)
    ultimately show ?thesis using Cons.IH False by (simp add: a r)
  qed
qed

lemma list_check_ok:
  "list_all (\<lambda>v. type_equal e (type_of v)) vs \<Longrightarrow> list_check e (map Some vs) i d = Inr d"
  by (induction vs arbitrary: i) auto

lemma ListValue_ok:
  "list_all (\<lambda>v. type_equal e (type_of v)) vs \<Longrightarrow>
     ListValue e (map Some vs) = Inr (ListKnown e vs, [])"
  by (simp add: ListValue_def list_check_ok comp_def)

lemma tuple_check_ok:
  "list_all2 (\<lambda>t v. type_equal t (type_of v)) ts vs \<Longrightarrow>
     tuple_check ts (map Some vs) i d = Inr d"
  by (induction ts vs arbitrary: i rule: list_all2_induct) auto

lemma TupleValue_ok:
  "list_all2 (\<lambda>t v. type_equal t (type_of v)) ts vs \<Longrightarrow>
     TupleValue ts (map Some vs) = Inr (TupleKnown ts vs, [])"
  by (auto simp: TupleValue_def tuple_check_ok comp_def dest: list_all2_lengthD)

lemma object_check_ok:
  "(\<forall>(k, t) \<in> set ats. \<exists>v. map_of attrs k = Some (Some v) \<and> type_equal t (type_of v)) \<Longrightarrow>
     object_check ats attrs d = Inr d"
  by (induction ats) auto

lemma object_extra_ok:
  "(\<forall>(k, v) \<in> set attrs. map_of ats k \<noteq> None) \<Longrightarrow> object_extra attrs ats d = d"
  by (induction attrs) auto

lemma ObjectValue_ok:
  assumes d: "distinct (map fst ats)"
    and t: "\<forall>(k, t) \<in> set ats. type_equal t (type_of (f k))"
  shows "ObjectValue ats (map (\<lambda>(k, t). (k, Some (f k))) ats) =
           Inr (ObjectKnown ats (map (\<lambda>(k, t). (k, f k)) ats), [])"
proof -
  let ?attrs = "map (\<lambda>(k, t). (k, Some (f k))) ats"
  have m: "map_of ?attrs k = Some (Some (f k))" if "(k, t) \<in> set ats" for k t
    using that by (induction ats) auto
  have c: "object_check ats ?attrs [] = Inr []"
    using t m by (intro object_check_ok) auto
  have "\<forall>(k, v) \<in> set ?attrs. map_of ats k \<noteq> None"
    by (auto dest: weak_map_of_SomeI)
  then have e: "object_extra ?attrs ats [] = []"
    by (rule object_extra_ok)
  have m': "map (\<lambda>(k, v). (k, the v)) ?attrs = map (\<lambda>(k, t). (k, f k)) ats"
    by (simp add: comp_def case_prod_unfold)
  show ?thesis
    unfolding ObjectValue_def c
    by (simp only: sum.case Let_def e HasError_simps if_False m')
qed

section \<open>Conversion against the inferred descriptor\<close>

lemma mirrors_elems_iff: "mirrors_elems xs vs = list_all2 mirrors xs vs"
  by (induction xs arbitrary: vs) (auto split: list.splits simp: list_all2_Cons1)

lemma mirrors_fields_iff:
  "mirrors_fields m avs = (\<forall>(k, x) \<in> set m. \<exists>v. map_of avs k = Some v \<and> mirrors x v)"
  by (induction m) (auto split: option.splits)

lemma cleanI:
  "convertToAttrValue v t = Inr (Some val, []) \<Longrightarrow> type_of val = t \<Longrightarrow> mirrors v val
     \<Longrightarrow> clean v t"
  by (simp add: clean_def converted_def)

lemma clean_list:
  assumes el: "\<forall>y \<in> set xs. clean y e" and wf: "wf_type e"
  shows "clean (RSlice xs) (ListType e)"
proof -
  let ?vs = "map (\<lambda>y. converted y e) xs"
  let ?rs = "map (\<lambda>y. (Some (converted y e), [])) xs"
  have "list_all2 (\<lambda>x r. convertToAttrValue x e = Inr r) xs ?rs"
    using el by (simp add: list_all2_conv_all_nth clean_def)
  from list_loop_all [OF this, of "[]" "[]"]
  obtain ds where loop: "convert_list_loop xs e [] [] = Inr (map Some ?vs, ds)"
    by (auto simp: comp_def)
  have "list_all (\<lambda>v. type_equal e (type_of v)) ?vs"
    using el wf by (auto simp: list_all_iff clean_def type_equal_refl)
  then have lv: "ListValue e (map Some ?vs) = Inr (ListKnown e ?vs, [])"
    by (rule ListValue_ok)
  have c: "convertToAttrValue (RSlice xs) (ListType e) = Inr (Some (ListKnown e ?vs), [])"
    unfolding conv_list loop by (simp only: sum.case prod.case lv returning.simps)
  have "list_all2 mirrors xs ?vs"
    using el by (simp add: list_all2_conv_all_nth clean_def)
  then have "mirrors (RSlice xs) (ListKnown e ?vs)" by (simp add: mirrors_elems_iff)
  then show ?thesis using c by (intro cleanI [where val = "ListKnown e ?vs"]) simp_all
qed

lemma clean_tuple:
  assumes len: "length xs = length es"
    and el: "\<forall>i<length xs. clean (xs ! i) (es ! i)"
    and wf: "list_all wf_type es"
  shows "clean (RSlice xs) (TupleType es)"
proof -
  let ?vs = "map (\<lambda>(y, t). converted y t) (zip xs es)"
  let ?rs = "map (\<lambda>(y, t). (Some (converted y t), [])) (zip xs es)"
  have "\<forall>i<length xs. convertToAttrValue (xs ! i) (es ! i) = Inr (?rs ! i)"
    using el len by (simp add: clean_def)
  from tuple_loop_conv_all [OF len _ this, of "[]" "[]"] len
  obtain ds where loop: "convert_tuple_loop xs es [] [] = Inr (map Some ?vs, ds)"
    by (auto simp: comp_def case_prod_unfold)
  have "list_all2 (\<lambda>t v. type_equal t (type_of v)) es ?vs"
    using el wf len by (auto simp: list_all2_conv_all_nth list_all_length clean_def type_equal_refl)
  then have tv: "TupleValue es (map Some ?vs) = Inr (TupleKnown es ?vs, [])"
    by (rule TupleValue_ok)
  have c: "convertToAttrValue (RSlice xs) (TupleType es) = Inr (Some (TupleKnown es ?vs), [])"
    unfolding conv_tuple loop using len
    by (simp only: sum.case prod.case tv returning.simps simp_thms if_False)
  have "list_all2 mirrors xs ?vs"
    using el len by (simp add: list_all2_conv_all_nth clean_def)
  then have "mirrors (RSlice xs) (TupleKnown es ?vs)" by (simp add: mirrors_elems_iff)
  then show ?thesis using c by (intro cleanI [where val = "TupleKnown es ?vs"]) simp_all
qed

lemma clean_object:
  assumes da: "distinct (map fst ats)" and dm: "distinct (map fst m)"
    and keys: "fst ` set ats = fst ` set m"
    and el: "\<forall>(k, t) \<in> set ats. clean (map_index m k) t \<and> wf_type t"
  shows "clean (RMap m) (ObjectType ats)"
proof -
  define f where "f k = converted (map_index m k) (the (map_of ats k))" for k
  have fk: "f k = converted (map_index m k) t" if "(k, t) \<in> set ats" for k t
    using that da by (simp add: f_def)
  let ?avs = "map (\<lambda>(k, t). (k, f k)) ats"
  have "\<forall>(k, t) \<in> set ats. \<exists>ds. convertToAttrValue (map_index m k) t = Inr (Some (f k), ds)
       \<and> \<not> HasError ds"
    using el fk by (auto simp: clean_def)
  from object_loop_conv_all [OF this da, of "[]" "[]"]
  obtain ds where loop:
    "convert_object_loop ats m [] [] = Inr (Some (map (\<lambda>(k, t). (k, Some (f k))) ats), ds)"
    by auto
  have "\<forall>(k, t) \<in> set ats. type_equal t (type_of (f k))"
    using el fk by (auto simp: clean_def type_equal_refl)
  from ObjectValue_ok [OF da this]
  have c: "convertToAttrValue (RMap m) (ObjectType ats) = Inr (Some (ObjectKnown ats ?avs), [])"
    unfolding conv_object loop by (simp only: sum.case prod.case option.case returning.simps)
  have k1: "set (map fst ?avs) = set (map fst m)"
    using keys by (simp add: comp_def case_prod_unfold)
  have "\<exists>v. map_of ?avs k = Some v \<and> mirrors x v" if kx: "(k, x) \<in> set m" for k x
  proof -
    from kx keys obtain t where kt: "(k, t) \<in> set ats" by force
    have "map_of ?avs k = Some (f k)"
      using kt by (induction ats) auto
    moreover have "map_index m k = x" using kx dm by (simp add: map_index_def)
    ultimately show ?thesis using el kt fk [OF kt] by (auto simp: clean_def)
  qed
  then have mf: "mirrors_fields m ?avs" by (auto simp: mirrors_fields_iff)
  show ?thesis
  proof (rule cleanI)
    show "convertToAttrValue (RMap m) (ObjectType ats) = Inr (Some (ObjectKnown ats ?avs), [])"
      by (rule c)
    show "type_of (ObjectKnown ats ?avs) = ObjectType ats" by simp
    show "mirrors (RMap m) (ObjectKnown ats ?avs)"
      using k1 mf by (simp only: mirrors.simps attr_value.case simp_thms)
  qed
qed

lemma convert_against_equal_type:
  "json_decoded v \<Longrightarrow>
     \<exists>t. inferAttrType v = Inr t \<and> wf_type t \<and>
         (\<forall>t'. wf_type t' \<longrightarrow> type_equal t' t \<longrightarrow> clean v t')"
proof (induction v)
  case RNil
  have "clean RNil StringType"
    by (rule cleanI [where val = StringNull]) (simp_all add: convertToAttrValue.simps)
  then show ?case by (auto dest: type_equal_StringD)
next
  case (RBool b)
  have "clean (RBool b) BoolType"
    by (rule cleanI [where val = "BoolValue b"]) (simp_all add: convertToAttrValue.simps)
  then show ?case by (auto dest: type_equal_BoolD)
next
  case (RFloat64 n)
  have "clean (RFloat64 n) NumberType"
    by (rule cleanI [where val = "NumberValue n"]) (simp_all add: convertToAttrValue.simps)
  then show ?case by (auto dest: type_equal_NumberD)
next
  case (RString s)
  have "clean (RString s) StringType"
    by (rule cleanI [where val = "StringValue s"]) (simp_all add: convertToAttrValue.simps)
  then show ?case by (auto dest: type_equal_StringD)
next
  case (RSlice xs)
  have good: "\<exists>t. inferAttrType y = Inr t \<and> wf_type t \<and>
         (\<forall>t'. wf_type t' \<longrightarrow> type_equal t' t \<longrightarrow> clean y t')" if "y \<in> set xs" for y
    using RSlice that by (auto simp: list_all_iff)
  show ?case
  proof (cases xs)
    case Nil
    have "clean (RSlice []) (ListType DynamicType)"
      by (rule clean_list) simp_all
    then show ?thesis
      using Nil by (auto dest!: type_equal_ListD type_equal_DynamicD)
  next
    case (Cons x rest)
    let ?ty = "projr \<circ> inferAttrType"
    have ty: "inferAttrType y = Inr (?ty y)" if "y \<in> set xs" for y
      using good [OF that] by auto
    have wfy: "wf_type (?ty y)" if "y \<in> set xs" for y
      using good [OF that] by auto
    have cl: "clean y t'" if "y \<in> set xs" "wf_type t'" "type_equal t' (?ty y)" for y t'
      using good [OF that(1)] that(2,3) by auto
    have "map inferAttrType rest = map Inr (map ?ty rest)"
      using ty Cons by (intro infer_elems) auto
    from infer_slice_Cons [OF ty [of x] this]
    have inf: "inferAttrType (RSlice xs) =
        Inr (if list_all (DeepEqual (?ty x)) (map ?ty rest) then ListType (?ty x)
             else TupleType (map ?ty xs))"
      using Cons by simp
    show ?thesis
    proof (cases "list_all (DeepEqual (?ty x)) (map ?ty rest)")
      case True
      have eq: "type_equal e (?ty y)" if "type_equal e (?ty x)" "y \<in> set xs" for e y
      proof (cases "y = x")
        case True
        then show ?thesis using that by simp
      next
        case False
        then have "y \<in> set rest" using that Cons by simp
        then have "type_equal (?ty x) (?ty y)"
          using True by (auto simp: list_all_iff DeepEqual_def)
        then show ?thesis using that(1) type_equal_trans by blast
      qed
      have "clean (RSlice xs) t'" if "wf_type t'" "type_equal t' (ListType (?ty x))" for t'
      proof -
        from that(2) obtain e where e: "t' = ListType e" "type_equal e (?ty x)"
          by (auto dest: type_equal_ListD)
        have "wf_type e" using that(1) e by simp
        moreover have "\<forall>y \<in> set xs. clean y e"
          using cl eq [OF e(2)] \<open>wf_type e\<close> by blast
        ultimately show ?thesis unfolding e(1) by (intro clean_list)
      qed
      moreover have "wf_type (ListType (?ty x))" using wfy [of x] Cons by simp
      ultimately show ?thesis using inf True by auto
    next
      case False
      have "clean (RSlice xs) t'" if "wf_type t'" "type_equal t' (TupleType (map ?ty xs))" for t'
      proof -
        from that(2) obtain es where es: "t' = TupleType es"
          "list_all2 type_equal es (map ?ty xs)"
          by (auto dest: type_equal_TupleD)
        have len: "length xs = length es" using es(2) by (auto dest: list_all2_lengthD)
        have wfs: "list_all wf_type es" using that(1) es by simp
        have "clean (xs ! i) (es ! i)" if "i < length xs" for i
        proof -
          have "type_equal (es ! i) (?ty (xs ! i))"
            using es(2) that len by (auto simp: list_all2_conv_all_nth)
          moreover have "wf_type (es ! i)" using wfs that len by (simp add: list_all_length)
          ultimately show ?thesis using cl [of "xs ! i" "es ! i"] that by simp
        qed
        then show ?thesis unfolding es(1) using len wfs by (intro clean_tuple) auto
      qed
      moreover have "wf_type (TupleType (map ?ty xs))"
        using wfy by (auto simp: list_all_iff)
      ultimately show ?thesis using inf False by auto
    qed
  qed
next
  case (RMap m)
  have dm: "distinct (map fst m)" using RMap.prems by simp
  have good: "\<exists>t. inferAttrType y = Inr t \<and> wf_type t \<and>
         (\<forall>t'. wf_type t' \<longrightarrow> type_equal t' t \<longrightarrow> clean y t')" if "(k, y) \<in> set m" for k y
  proof -
    have "json_decoded y" using RMap.prems that by (force simp: list_all_iff)
    then show ?thesis using RMap.IH [of "(k, y)" y] that by auto
  qed
  let ?ty = "\<lambda>v. projr (inferAttrType v)"
  let ?T = "map (\<lambda>(k, v). (k, ?ty v)) m"
  have "\<forall>(k, v) \<in> set m. \<exists>t. inferAttrType v = Inr t"
    using good by blast
  then have inf: "inferAttrType (RMap m) = Inr (ObjectType ?T)"
    using dm by (rule infer_map)
  have kT: "map fst ?T = map fst m" by (simp add: comp_def case_prod_unfold)
  have wfT: "wf_type (ObjectType ?T)"
  proof -
    have "list_all wf_type (map snd ?T)"
      using good by (fastforce simp: list_all_iff)
    moreover have "distinct (map fst ?T)" unfolding kT by (rule dm)
    ultimately show ?thesis by (simp only: wf_type.simps simp_thms)
  qed
  have "clean (RMap m) t'" if "wf_type t'" "type_equal t' (ObjectType ?T)" for t'
  proof -
    from that(2) obtain ats where ats: "t' = ObjectType ats" "length ats = length ?T"
      "attrs_equal ats ?T"
      by (auto dest: type_equal_ObjectD)
    have da: "distinct (map fst ats)" and wfa: "list_all wf_type (map snd ats)"
      using that(1) ats by simp_all
    have look: "\<exists>y. (k, y) \<in> set m \<and> type_equal t (?ty y)" if "(k, t) \<in> set ats" for k t
    proof -
      from ats(3) that obtain a where "map_of ?T k = Some a" "type_equal t a"
        by (auto simp: attrs_equal_iff)
      then have "(k, a) \<in> set ?T" by (intro map_of_SomeD)
      then show ?thesis using \<open>type_equal t a\<close> by auto
    qed
    have sub: "fst ` set ats \<subseteq> fst ` set m"
      using look by force
    have "card (fst ` set ats) = card (fst ` set m)"
      using da dm ats(2) by (metis distinct_card length_map list.set_map)
    then have keys: "fst ` set ats = fst ` set m"
      using sub by (simp add: card_subset_eq)
    have "clean (map_index m k) t \<and> wf_type t" if kt: "(k, t) \<in> set ats" for k t
    proof -
      from look [OF kt] obtain y where y: "(k, y) \<in> set m" "type_equal t (?ty y)" by auto
      have wt: "wf_type t" using wfa kt by (force simp: list_all_iff)
      have "clean y t" using good [OF y(1)] y(2) wt by auto
      then show ?thesis using wt map_index_distinct [OF dm y(1)] by simp
    qed
    then show ?thesis unfolding ats(1) using da dm keys by (intro clean_object) auto
  qed
  then show ?case using inf wfT by auto
qed simp_all

lemma json_decoded_map_index:
  "json_decoded (RMap m) \<Longrightarrow> json_decoded (map_index m k)"
  by (auto simp: map_index_def list_all_iff split: option.splits dest!: map_of_SomeD)

lemma infer_then_convert_clean:
  assumes "json_decoded v"
  shows "inferAttrType v = Inr (projr (inferAttrType v))"
    and "wf_type (projr (inferAttrType v))"
    and "clean v (projr (inferAttrType v))"
proof -
  from convert_against_equal_type [OF assms] obtain t where
    t: "inferAttrType v = Inr t" "wf_type t" "\<forall>t'. wf_type t' \<longrightarrow> type_equal t' t \<longrightarrow> clean v t'"
    by auto
  show "inferAttrType v = Inr (projr (inferAttrType v))" by (simp add: t)
  show "wf_type (projr (inferAttrType v))" by (simp add: t)
  show "clean v (projr (inferAttrType v))" using t type_equal_refl by simp
qed

text \<open>
  C1. For every value \<open>v\<close> decoded from JSON (null, bool, number, string, array,
  string-keyed object), \<open>inferAttrType\<close> returns a descriptor \<open>t\<close>, and
  \<open>convertToAttrValue v t\<close> returns a value with no diagnostics at all; the value has
  type \<open>t\<close> and mirrors the shape of \<open>v\<close>: the same kind at every level, the same
  sequence lengths, the same object key sets.
\<close>

theorem infer_then_convert:
  "json_decoded v \<Longrightarrow>
     \<exists>t val. inferAttrType v = Inr t \<and> convertToAttrValue v t = Inr (Some val, [])
        \<and> type_of val = t \<and> mirrors v val"
  using infer_then_convert_clean [of v] by (auto simp: clean_def)

text \<open>
  The theorem at an object holding a heterogeneous array, an empty array and a
  homogeneous array.
\<close>

theorem infer_then_convert_witness:
  "json_decoded (RMap [(''a'', RSlice [RFloat64 1, RString ''x'', RNil]), (''b'', RSlice []),
      (''c'', RSlice [RBool True, RBool False])])
   \<and> (\<exists>t val. inferAttrType (RMap [(''a'', RSlice [RFloat64 1, RString ''x'', RNil]),
          (''b'', RSlice []), (''c'', RSlice [RBool True, RBool False])]) = Inr t
        \<and> convertToAttrValue (RMap [(''a'', RSlice [RFloat64 1, RString ''x'', RNil]),
          (''b'', RSlice []), (''c'', RSlice [RBool True, RBool False])]) t = Inr (Some val, [])
        \<and> type_of val = t
        \<and> mirrors (RMap [(''a'', RSlice [RFloat64 1, RString ''x'', RNil]),
          (''b'', RSlice []), (''c'', RSlice [RBool True, RBool False])]) val)"
  using infer_then_convert [of "RMap [(''a'', RSlice [RFloat64 1, RString ''x'', RNil]),
      (''b'', RSlice []), (''c'', RSlice [RBool True, RBool False])]"]
  by simp

text \<open>
  A Go \<open>int\<close> is not such a value: \<open>json.Unmarshal\<close> decodes every number to
  \<open>float64\<close>. Inference accepts it as a number, conversion asserts \<open>float64\<close> and reports
  \<open>expected number\<close>.
\<close>

lemma go_int_is_inferred_but_not_converted:
  "\<not> json_decoded (RInt 1) \<and> inferAttrType (RInt 1) = Inr NumberType
   \<and> convertToAttrValue (RInt 1) NumberType =
       Inr (Some NumberNull, [Diagnostic SeverityError ''Conversion Error'' ''expected number''])"
  by (simp add: convertToAttrValue.simps)

section \<open>Inference of sequences and of null\<close>

text \<open>
  C3. An empty sequence infers as a list of the dynamic type. A non-empty sequence
  whose elements infer to the descriptors \<open>t # ts\<close> infers as the list of \<open>t\<close> when every
  later descriptor is deeply equal to \<open>t\<close>, and otherwise as the tuple whose i-th
  element type is the descriptor inferred for element i.
\<close>

theorem infer_sequence:
  "inferAttrType (RSlice []) = Inr (ListType DynamicType)
   \<and> (inferAttrType x = Inr t \<and> map inferAttrType xs = map Inr ts \<longrightarrow>
        inferAttrType (RSlice (x # xs)) =
          Inr (if list_all (DeepEqual t) ts then ListType t else TupleType (t # ts)))"
  using tuple_loop_all [of "x # xs" "t # ts" "[]"]
  by (auto simp: homogeneous_loop_all)

text \<open>
  The theorem at the empty array, at three numbers, and at a number, a string and a
  bool.
\<close>

theorem infer_sequence_witness:
  "inferAttrType (RSlice []) = Inr (ListType DynamicType)
   \<and> inferAttrType (RSlice [RFloat64 1, RFloat64 2, RFloat64 3]) = Inr (ListType NumberType)
   \<and> inferAttrType (RSlice [RFloat64 1, RString ''a'', RBool True]) =
       Inr (TupleType [NumberType, StringType, BoolType])"
  using infer_sequence [of "RFloat64 1" NumberType "[RFloat64 2, RFloat64 3]"
      "[NumberType, NumberType]"]
    infer_sequence [of "RFloat64 1" NumberType "[RString ''a'', RBool True]"
      "[StringType, BoolType]"]
  by (simp add: DeepEqual_def)

text \<open>
  C5, as the claim states it, fails: the descriptors have no null kind, and a null raw
  value is given the descriptor of strings, the one a string gets.
\<close>

theorem infer_null_is_not_a_null_kind:
  "inferAttrType RNil = Inr StringType \<and> inferAttrType (RString ''a'') = Inr StringType"
  by simp

text \<open>
  C5, amended. Inferring the type of a null raw value yields the String descriptor.
\<close>

theorem infer_null: "inferAttrType RNil = Inr StringType"
  by simp

section \<open>Conversion of null and of unsupported targets\<close>

text \<open>
  C4, as the claim states it, fails: a null raw value converted against the Bool
  descriptor gives the String null, whose type is not Bool.
\<close>

theorem convert_null_not_typed_as_target:
  "convertToAttrValue RNil BoolType = Inr (Some StringNull, [])
   \<and> type_of StringNull \<noteq> BoolType"
  by (simp add: convertToAttrValue.simps)

text \<open>
  C4, amended. For every target descriptor, converting a null raw value returns, with no
  diagnostics, the String null placeholder, whose type is String whatever the target.
\<close>

theorem convert_null:
  "convertToAttrValue RNil t = Inr (Some StringNull, []) \<and> type_of StringNull = StringType"
  by (simp add: convertToAttrValue.simps)

text \<open>
  C9, as the claim states it, fails: against the dynamic descriptor a non-null raw value
  gives the diagnostic and the nil interface, no value at all.
\<close>

theorem convert_unsupported_returns_nil:
  "convertToAttrValue (RBool True) DynamicType =
     Inr (None, [Diagnostic SeverityError ''Conversion Error''
                   ''unsupported type basetypes.DynamicType''])"
  by (simp add: convertToAttrValue.simps)

text \<open>
  C9, amended. For every target descriptor without a conversion rule and every non-null
  raw value, conversion returns one error diagnostic, with summary \<open>Conversion Error\<close> and
  detail \<open>unsupported type\<close> followed by the name of the descriptor, together with the
  nil interface in place of a value.
\<close>

theorem convert_unsupported:
  "\<not> has_conversion_rule t \<Longrightarrow> raw \<noteq> RNil \<Longrightarrow>
     convertToAttrValue raw t =
       Inr (None, [Diagnostic SeverityError ''Conversion Error''
                     (''unsupported type '' @ type_name t)])"
  by (cases t) (simp_all add: convertToAttrValue.simps)

text \<open>
  The theorem at the number 1 and the descriptor \<open>Int64Type\<close>.
\<close>

theorem convert_unsupported_witness:
  "\<not> has_conversion_rule Int64Type \<and> RFloat64 1 \<noteq> RNil \<and>
   convertToAttrValue (RFloat64 1) Int64Type =
     Inr (None, [Diagnostic SeverityError ''Conversion Error''
                   ''unsupported type basetypes.Int64Type''])"
  using convert_unsupported [of Int64Type "RFloat64 1"] by simp

section \<open>Conversion against descriptors with a conversion rule\<close>

text \<open>
  Against a descriptor built from the kinds with a conversion rule the conversion
  returns a value, of the type of the descriptor unless the raw value is null. The
  constructors of the framework then accept the elements exactly when none of them is
  the String null of a null raw value under another descriptor.
\<close>

lemma returning_eq: "returning r = Inr (Some v, ds) \<longleftrightarrow> r = Inr (v, ds)"
  by (cases r) auto

lemma HasError_AddError: "HasError (AddError d s t)"
  unfolding AddError_def HasError_Append by simp

lemma ListValue_type: "ListValue e elems = Inr (v, ds) \<Longrightarrow> type_of v = ListType e"
  by (auto simp: ListValue_def split: sum.splits if_splits)

lemma TupleValue_type: "TupleValue es elems = Inr (v, ds) \<Longrightarrow> type_of v = TupleType es"
  by (auto simp: TupleValue_def split: sum.splits if_splits)

lemma ObjectValue_type: "ObjectValue ats elems = Inr (v, ds) \<Longrightarrow> type_of v = ObjectType ats"
  by (auto simp: ObjectValue_def Let_def split: sum.splits if_splits)

lemma MapValue_type: "MapValue e elems = Inr (v, ds) \<Longrightarrow> type_of v = MapType e"
  by (auto simp: MapValue_def split: sum.splits if_splits)

lemma convert_type:
  assumes "convertToAttrValue x t = Inr (Some v, ds)" and "x \<noteq> RNil"
  shows "type_of v = t"
proof (cases t)
  case BoolType
  then show ?thesis using assms by (auto simp: convertToAttrValue.simps split: option.splits)
next
  case NumberType
  then show ?thesis using assms by (auto simp: convertToAttrValue.simps split: option.splits)
next
  case StringType
  then show ?thesis using assms by (auto simp: convertToAttrValue.simps split: option.splits)
next
  case (ListType e)
  then show ?thesis using assms
    by (auto simp: convertToAttrValue.simps returning_eq
        split: option.splits sum.splits prod.splits dest: ListValue_type)
next
  case (TupleType es)
  then show ?thesis using assms
    by (auto simp: convertToAttrValue.simps returning_eq
        split: option.splits sum.splits prod.splits if_splits dest: TupleValue_type)
next
  case (ObjectType ats)
  then show ?thesis using assms
    by (auto simp: convertToAttrValue.simps returning_eq
        split: option.splits sum.splits prod.splits dest: ObjectValue_type)
next
  case (MapType e)
  then show ?thesis using assms
    by (auto simp: convertToAttrValue.simps returning_eq
        split: option.splits sum.splits prod.splits dest: MapValue_type)
qed (use assms in \<open>auto simp: convertToAttrValue.simps\<close>)

lemma converted_eq: "convertToAttrValue x t = Inr (Some v, ds) \<Longrightarrow> converted x t = v"
  by (simp add: converted_def)

lemma list_check_res:
  "\<exists>d'. list_check e (map Some vs) i d = Inr d' \<and>
     (HasError d' \<longleftrightarrow> HasError d \<or> \<not> list_all (\<lambda>v. type_equal e (type_of v)) vs)"
proof (induction vs arbitrary: i d)
  case Nil
  then show ?case by simp
next
  case (Cons v vs)
  show ?case
  proof (cases "type_equal e (type_of v)")
    case True
    then show ?thesis using Cons [of "Suc i" d] by simp
  next
    case False
    then show ?thesis
      using Cons [of "Suc i" "AddError d ''Invalid List Element Type'' (string_of_nat i)"]
      by (simp add: HasError_AddError)
  qed
qed

lemma ListValue_bad:
  assumes "\<not> list_all (\<lambda>v. type_equal e (type_of v)) vs"
  shows "\<exists>ds. ListValue e (map Some vs) = Inr (ListUnknown e, ds) \<and> HasError ds"
proof -
  from list_check_res [of e vs 0 "[]"] assms obtain d' where
    "list_check e (map Some vs) 0 [] = Inr d'" "HasError d'" by auto
  then show ?thesis by (simp add: ListValue_def)
qed

lemma tuple_check_res:
  "length ts = length vs \<Longrightarrow>
   \<exists>d'. tuple_check ts (map Some vs) i d = Inr d' \<and>
     (HasError d' \<longleftrightarrow> HasError d \<or> \<not> list_all2 (\<lambda>t v. type_equal t (type_of v)) ts vs)"
proof (induction ts vs arbitrary: i d rule: list_induct2)
  case Nil
  then show ?case by simp
next
  case (Cons t ts v vs)
  show ?case
  proof (cases "type_equal t (type_of v)")
    case True
    then show ?thesis using Cons.IH [of "Suc i" d] by simp
  next
    case False
    then show ?thesis
      using Cons.IH [of "Suc i" "AddError d ''Invalid Tuple Element'' (string_of_nat i)"]
      by (simp add: HasError_AddError)
  qed
qed

lemma TupleValue_bad:
  assumes "length ts = length vs"
    and "\<not> list_all2 (\<lambda>t v. type_equal t (type_of v)) ts vs"
  shows "\<exists>ds. TupleValue ts (map Some vs) = Inr (TupleUnknown ts, ds) \<and> HasError ds"
proof -
  from tuple_check_res [OF assms(1), of 0 "[]"] assms(2) obtain d' where
    "tuple_check ts (map Some vs) 0 [] = Inr d'" "HasError d'" by auto
  then show ?thesis using assms(1) by (simp add: TupleValue_def)
qed

lemma object_check_res:
  "\<forall>(k, t) \<in> set ats'. map_of attrs k = Some (Some (f k)) \<Longrightarrow>
   \<exists>d'. object_check ats' attrs d = Inr d' \<and>
     (HasError d' \<longleftrightarrow> HasError d \<or> (\<exists>(k, t) \<in> set ats'. \<not> type_equal t (type_of (f k))))"
proof (induction ats' arbitrary: d)
  case Nil
  then show ?case by simp
next
  case (Cons a ats')
  obtain k t where a: "a = (k, t)" by (cases a)
  have m: "map_of attrs k = Some (Some (f k))" using Cons.prems by (simp add: a)
  have rest: "\<forall>(k, t) \<in> set ats'. map_of attrs k = Some (Some (f k))" using Cons.prems by simp
  show ?case
  proof (cases "type_equal t (type_of (f k))")
    case True
    then show ?thesis using Cons.IH [OF rest, of d] by (simp add: a m)
  next
    case False
    then show ?thesis
      using Cons.IH [OF rest, of "AddError d ''Invalid Object Attribute Type'' k"]
      by (auto simp: a m HasError_AddError)
  qed
qed

lemma ObjectValue_bad:
  assumes d: "distinct (map fst ats)"
    and bad: "\<exists>(k, t) \<in> set ats. \<not> type_equal t (type_of (f k))"
  shows "\<exists>ds. ObjectValue ats (map (\<lambda>(k, t). (k, Some (f k))) ats) =
           Inr (ObjectUnknown ats, ds) \<and> HasError ds"
proof -
  let ?attrs = "map (\<lambda>(k, t). (k, Some (f k))) ats"
  have m: "map_of ?attrs k = Some (Some (f k))" if "(k, t) \<in> set ats" for k t
    using that by (induction ats) auto
  then have al: "\<forall>(k, t) \<in> set ats. map_of ?attrs k = Some (Some (f k))" by blast
  note r = object_check_res [where f = f and attrs = ?attrs and ats' = ats and d = "[]", OF al]
  then obtain d' where r': "object_check ats ?attrs [] = Inr d' \<and>
     (HasError d' \<longleftrightarrow> HasError [] \<or> (\<exists>(k, t) \<in> set ats. \<not> type_equal t (type_of (f k))))" ..
  then have c: "object_check ats ?attrs [] = Inr d'" by (rule conjunct1)
  have h: "HasError d'" using r' [THEN conjunct2] bad by (simp only: simp_thms)
  have "\<forall>(k, v) \<in> set ?attrs. map_of ats k \<noteq> None"
    by (auto dest: weak_map_of_SomeI)
  then have e: "object_extra ?attrs ats d' = d'"
    by (rule object_extra_ok)
  have "ObjectValue ats ?attrs = Inr (ObjectUnknown ats, d')"
    unfolding ObjectValue_def c using h by (simp only: sum.case Let_def e if_True)
  then show ?thesis using h by (intro exI [of _ d']) (rule conjI)
qed

lemma update_all_Some:
  "\<forall>(k, v) \<in> set al. v \<noteq> None \<Longrightarrow> \<forall>(k, v) \<in> set (AList.update key (Some w) al). v \<noteq> None"
  by (induction al) auto

lemma object_check_total:
  "\<forall>(k, v) \<in> set attrs. v \<noteq> None \<Longrightarrow> \<exists>d'. object_check ats attrs d = Inr d'"
proof (induction ats arbitrary: d)
  case Nil
  then show ?case by simp
next
  case (Cons a ats)
  obtain k t where a: "a = (k, t)" by (cases a)
  show ?case
  proof (cases "map_of attrs k")
    case None
    then show ?thesis using Cons.IH [OF Cons.prems] by (simp add: a)
  next
    case (Some v)
    then have "(k, v) \<in> set attrs" by (rule map_of_SomeD)
    then obtain w where "v = Some w" using Cons.prems by auto
    then show ?thesis using Cons.IH [OF Cons.prems] Some by (simp add: a)
  qed
qed

lemma ObjectValue_total:
  "\<forall>(k, v) \<in> set attrs. v \<noteq> None \<Longrightarrow> \<exists>v ds. ObjectValue ats attrs = Inr (v, ds)"
  using object_check_total [of attrs ats "[]"]
  by (auto simp: ObjectValue_def Let_def)

lemma map_check_total:
  "\<forall>(k, v) \<in> set attrs. v \<noteq> None \<Longrightarrow> \<exists>d'. map_check e attrs d = Inr d'"
proof (induction attrs arbitrary: d)
  case Nil
  then show ?case by simp
next
  case (Cons a attrs)
  obtain k v where a: "a = (k, v)" by (cases a)
  obtain w where v: "v = Some w" using Cons.prems by (auto simp: a)
  have "\<forall>(k, v) \<in> set attrs. v \<noteq> None" using Cons.prems by simp
  from Cons.IH [OF this] show ?case by (simp add: a v)
qed

lemma MapValue_total:
  "\<forall>(k, v) \<in> set attrs. v \<noteq> None \<Longrightarrow> \<exists>v ds. MapValue e attrs = Inr (v, ds)"
  using map_check_total [of attrs e "[]"]
  by (auto simp: MapValue_def)

lemma object_loop_total:
  "\<forall>(k, t) \<in> set ats. \<exists>v ds. convertToAttrValue (map_index m k) t = Inr (Some v, ds) \<Longrightarrow>
   \<forall>(k, v) \<in> set o0. v \<noteq> None \<Longrightarrow>
     (\<exists>ds. convert_object_loop ats m d0 o0 = Inr (None, ds)) \<or>
     (\<exists>ov ds. convert_object_loop ats m d0 o0 = Inr (Some ov, ds) \<and>
        (\<forall>(k, v) \<in> set ov. v \<noteq> None))"
proof (induction ats arbitrary: d0 o0)
  case Nil
  then show ?case by simp
next
  case (Cons a ats)
  obtain k t where a: "a = (k, t)" by (cases a)
  from Cons.prems(1) obtain v ds where
    hd: "convertToAttrValue (map_index m k) t = Inr (Some v, ds)" by (auto simp: a)
  have rest: "\<forall>(k, t) \<in> set ats. \<exists>v ds. convertToAttrValue (map_index m k) t = Inr (Some v, ds)"
    using Cons.prems(1) by simp
  show ?case
  proof (cases "HasError ds")
    case True
    then show ?thesis by (simp add: a hd)
  next
    case False
    from Cons.IH [OF rest update_all_Some [OF Cons.prems(2), of k v], of "Append d0 ds"]
    show ?thesis using False by (simp add: a hd)
  qed
qed

lemma map_loop_total:
  "\<forall>(k, x) \<in> set m. \<exists>v ds. convertToAttrValue x e = Inr (Some v, ds) \<Longrightarrow>
   \<forall>(k, v) \<in> set o0. v \<noteq> None \<Longrightarrow>
     (\<exists>ds. convert_map_loop m e d0 o0 = Inr (None, ds)) \<or>
     (\<exists>ov ds. convert_map_loop m e d0 o0 = Inr (Some ov, ds) \<and>
        (\<forall>(k, v) \<in> set ov. v \<noteq> None))"
proof (induction m arbitrary: d0 o0)
  case Nil
  then show ?case by simp
next
  case (Cons a m)
  obtain k x where a: "a = (k, x)" by (cases a)
  from Cons.prems(1) obtain v ds where
    hd: "convertToAttrValue x e = Inr (Some v, ds)" by (auto simp: a)
  have rest: "\<forall>(k, x) \<in> set m. \<exists>v ds. convertToAttrValue x e = Inr (Some v, ds)"
    using Cons.prems(1) by simp
  show ?case
  proof (cases "HasError ds")
    case True
    then show ?thesis by (simp add: a hd)
  next
    case False
    from Cons.IH [OF rest update_all_Some [OF Cons.prems(2), of k v], of "Append d0 ds"]
    show ?thesis using False by (simp add: a hd)
  qed
qed

lemma ListValue_total: "\<exists>v ds. ListValue e (map Some vs) = Inr (v, ds)"
  using list_check_res [of e vs 0 "[]"] by (auto simp: ListValue_def)

lemma TupleValue_total:
  "length es = length vs \<Longrightarrow> \<exists>v ds. TupleValue es (map Some vs) = Inr (v, ds)"
  using tuple_check_res [of es vs 0 "[]"] by (auto simp: TupleValue_def)

lemma conv_total:
  "convertible t \<Longrightarrow> \<exists>v ds. convertToAttrValue x t = Inr (Some v, ds)"
proof (induction t arbitrary: x)
  case BoolType
  show ?case by (simp add: convertToAttrValue.simps split: option.split)
next
  case NumberType
  show ?case by (simp add: convertToAttrValue.simps split: option.split)
next
  case StringType
  show ?case by (simp add: convertToAttrValue.simps split: option.split)
next
  case (ListType e)
  show ?case
  proof (cases "\<exists>xs. x = RSlice xs")
    case False
    then show ?thesis by (cases x) (simp_all add: convertToAttrValue.simps)
  next
    case True
    then obtain xs where x: "x = RSlice xs" by auto
    have "\<forall>x \<in> set xs. \<exists>v. \<exists>ds. convertToAttrValue x e = Inr (Some v, ds)"
      using ListType by simp
    then have "\<exists>vs. list_all2 (\<lambda>x v. \<exists>ds. convertToAttrValue x e = Inr (Some v, ds)) xs vs"
      by (induction xs) (auto simp: list_all2_Cons1)
    then obtain vs where
      "list_all2 (\<lambda>x v. \<exists>ds. convertToAttrValue x e = Inr (Some v, ds)) xs vs" ..
    from list_loop_values [OF this, of "[]" "[]"]
    obtain ds where loop: "convert_list_loop xs e [] [] = Inr (map Some vs, ds)" by auto
    obtain v ds' where "ListValue e (map Some vs) = Inr (v, ds')"
      using ListValue_total by blast
    then show ?thesis unfolding x conv_list loop by simp
  qed
next
  case (TupleType es)
  show ?case
  proof (cases "\<exists>xs. x = RSlice xs")
    case False
    then show ?thesis by (cases x) (simp_all add: convertToAttrValue.simps)
  next
    case True
    then obtain xs where x: "x = RSlice xs" by auto
    show ?thesis
    proof (cases "length xs = length es")
      case False
      then show ?thesis unfolding x conv_tuple by simp
    next
      case len: True
      have "\<forall>i<length es. \<exists>v. \<exists>ds. convertToAttrValue (xs ! i) (es ! i) = Inr (Some v, ds)"
        using TupleType by (simp add: list_all_length)
      then obtain f where
        f: "\<forall>i<length es. \<exists>ds. convertToAttrValue (xs ! i) (es ! i) = Inr (Some (f i), ds)"
        by metis
      define vs where "vs = map f [0..<length es]"
      have l2: "length es = length vs" by (simp add: vs_def)
      have c: "\<forall>i<length es. \<exists>ds. convertToAttrValue (xs ! i) (es ! i) = Inr (Some (vs ! i), ds)"
        using f by (simp add: vs_def)
      from tuple_loop_values [OF len l2 c, of "[]" "[]"]
      obtain ds where loop: "convert_tuple_loop xs es [] [] = Inr (map Some vs, ds)" by auto
      obtain v ds' where "TupleValue es (map Some vs) = Inr (v, ds')"
        using TupleValue_total [OF l2] by blast
      then show ?thesis unfolding x conv_tuple loop using len by simp
    qed
  qed
next
  case (ObjectType ats)
  show ?case
  proof (cases "\<exists>m. x = RMap m")
    case False
    then show ?thesis by (cases x) (simp_all add: convertToAttrValue.simps)
  next
    case True
    then obtain m where x: "x = RMap m" by auto
    have all: "\<forall>(k, t) \<in> set ats. \<exists>v ds. convertToAttrValue (map_index m k) t = Inr (Some v, ds)"
    proof (clarify)
      fix k t assume kt: "(k, t) \<in> set ats"
      then have "convertible t" using ObjectType.prems by (auto simp: list_all_iff)
      moreover have "t \<in> Basic_BNFs.snds (k, t)" by simp
      ultimately show "\<exists>v ds. convertToAttrValue (map_index m k) t = Inr (Some v, ds)"
        using ObjectType.IH kt by blast
    qed
    from object_loop_total [OF all, of "[]" "[]"]
    consider ds where "convert_object_loop ats m [] [] = Inr (None, ds)"
      | ov ds where "convert_object_loop ats m [] [] = Inr (Some ov, ds)"
          "\<forall>(k, v) \<in> set ov. v \<noteq> None"
      by auto
    then show ?thesis
    proof cases
      case 1
      then show ?thesis unfolding x conv_object by simp
    next
      case 2
      obtain v ds' where "ObjectValue ats ov = Inr (v, ds')"
        using ObjectValue_total [OF 2(2)] by blast
      then show ?thesis unfolding x conv_object 2(1) by simp
    qed
  qed
next
  case (MapType e)
  have empty: "\<exists>v ds. returning (MapValue e []) = Inr (Some v, ds)"
    by (simp add: MapValue_def)
  show ?case
  proof (cases "\<exists>m. x = RMap m")
    case False
    then show ?thesis using empty by (cases x) (simp_all add: convertToAttrValue.simps)
  next
    case True
    then obtain m where x: "x = RMap m" by auto
    have all: "\<forall>(k, x) \<in> set m. \<exists>v ds. convertToAttrValue x e = Inr (Some v, ds)"
      using MapType by simp
    from map_loop_total [OF all, of "[]" "[]"]
    consider ds where "convert_map_loop m e [] [] = Inr (None, ds)"
      | ov ds where "convert_map_loop m e [] [] = Inr (Some ov, ds)"
          "\<forall>(k, v) \<in> set ov. v \<noteq> None"
      by auto
    then show ?thesis
    proof cases
      case 1
      then show ?thesis using empty by (simp add: x convertToAttrValue.simps)
    next
      case 2
      obtain v ds' where "MapValue e ov = Inr (v, ds')"
        using MapValue_total [OF 2(2)] by blast
      then show ?thesis using 2(1) by (simp add: x convertToAttrValue.simps)
    qed
  qed
qed simp_all

lemma converted_total:
  "convertible t \<Longrightarrow> \<exists>ds. convertToAttrValue x t = Inr (Some (converted x t), ds)"
  using conv_total [of t x] by (auto simp: converted_def)

lemma converted_Nil [simp]: "converted RNil t = StringNull"
  by (simp add: converted_def convertToAttrValue.simps)

lemma typed_iff:
  assumes "convertible t" and "wf_type t"
  shows "type_equal t (type_of (converted x t)) \<longleftrightarrow> x \<noteq> RNil \<or> t = StringType"
proof (cases "x = RNil")
  case True
  then show ?thesis using type_equal_StringD [of t] by auto
next
  case False
  from converted_total [OF assms(1), of x] obtain ds where
    "convertToAttrValue x t = Inr (Some (converted x t), ds)" ..
  from convert_type [OF this False] show ?thesis
    using False type_equal_refl [OF assms(2)] by simp
qed

lemma string_of_nat_1: "string_of_nat (Suc 0) = ''1''"
  by (simp add: string_of_nat.simps char_of_def bit_iff_odd_drop_bit drop_bit_eq_div)

lemma object_fields:
  assumes c: "list_all convertible (map snd ats)"
    and d: "distinct (map fst ats)"
    and w: "list_all wf_type (map snd ats)"
  shows "(\<exists>(k, t) \<in> set ats. reports_error (map_index m k) t) \<Longrightarrow>
           \<exists>ds. convertToAttrValue (RMap m) (ObjectType ats) = Inr (Some (ObjectNull ats), ds)
                \<and> HasError ds"
    and "\<not> (\<exists>(k, t) \<in> set ats. reports_error (map_index m k) t) \<Longrightarrow>
         (\<forall>(k, t) \<in> set ats. map_index m k \<noteq> RNil \<or> t = StringType) \<Longrightarrow>
           convertToAttrValue (RMap m) (ObjectType ats) =
             Inr (Some (ObjectKnown ats
                    (map (\<lambda>(k, t). (k, converted (map_index m k) t)) ats)), [])"
    and "\<not> (\<exists>(k, t) \<in> set ats. reports_error (map_index m k) t) \<Longrightarrow>
         \<not> (\<forall>(k, t) \<in> set ats. map_index m k \<noteq> RNil \<or> t = StringType) \<Longrightarrow>
           \<exists>ds. convertToAttrValue (RMap m) (ObjectType ats) = Inr (Some (ObjectUnknown ats), ds)
                \<and> HasError ds"
proof -
  define f where "f k = converted (map_index m k) (the (map_of ats k))" for k
  have fk: "f k = converted (map_index m k) t" if "(k, t) \<in> set ats" for k t
    using that d by (simp add: f_def)
  have ct: "convertible t" "wf_type t" if "(k, t) \<in> set ats" for k t
    using that c w by (auto simp: list_all_iff)
  have tot: "\<exists>ds. convertToAttrValue (map_index m k) t = Inr (Some (f k), ds)"
    if "(k, t) \<in> set ats" for k t
    using converted_total [OF ct(1) [OF that], of "map_index m k"] fk [OF that] by simp
  have ty: "type_equal t (type_of (f k)) \<longleftrightarrow> map_index m k \<noteq> RNil \<or> t = StringType"
    if "(k, t) \<in> set ats" for k t
    using typed_iff [OF ct [OF that], of "map_index m k"] fk [OF that] by simp
  have vals: "map (\<lambda>(k, t). (k, f k)) ats =
      map (\<lambda>(k, t). (k, converted (map_index m k) t)) ats"
    using fk by (intro map_cong) auto
  {
    assume "\<exists>(k, t) \<in> set ats. reports_error (map_index m k) t"
    then obtain k t where kt: "(k, t) \<in> set ats" and r: "reports_error (map_index m k) t"
      by auto
    from tot [OF kt] obtain ds where
      e: "convertToAttrValue (map_index m k) t = Inr (Some (f k), ds)" ..
    have h: "HasError ds" using r by (simp add: reports_error_def e)
    have 1: "\<forall>(k, t) \<in> set ats. \<exists>r. convertToAttrValue (map_index m k) t = Inr r"
      using tot by blast
    have 2: "\<exists>(k, t) \<in> set ats. \<exists>v ds.
        convertToAttrValue (map_index m k) t = Inr (v, ds) \<and> HasError ds"
      using kt e h by blast
    from object_loop_error [OF 1 2, of "[]" "[]"] obtain ds' where
      "convert_object_loop ats m [] [] = Inr (None, ds')" "HasError ds'" by auto
    then show "\<exists>ds. convertToAttrValue (RMap m) (ObjectType ats) =
        Inr (Some (ObjectNull ats), ds) \<and> HasError ds"
      unfolding conv_object by simp
  }
  {
    assume n: "\<not> (\<exists>(k, t) \<in> set ats. reports_error (map_index m k) t)"
    have ok: "\<exists>ds. convertToAttrValue (map_index m k) t = Inr (Some (f k), ds) \<and> \<not> HasError ds"
      if "(k, t) \<in> set ats" for k t
    proof -
      from tot [OF that] obtain ds where
        e: "convertToAttrValue (map_index m k) t = Inr (Some (f k), ds)" ..
      have "\<not> reports_error (map_index m k) t" using n that by auto
      then have "\<not> HasError ds" by (simp add: reports_error_def e)
      then show ?thesis using e by auto
    qed
    then have all: "\<forall>(k, t) \<in> set ats. \<exists>ds.
        convertToAttrValue (map_index m k) t = Inr (Some (f k), ds) \<and> \<not> HasError ds"
      by blast
    from object_loop_conv_all [OF all d, of "[]" "[]"]
    obtain ds where loop:
      "convert_object_loop ats m [] [] = Inr (Some (map (\<lambda>(k, t). (k, Some (f k))) ats), ds)"
      by auto
    {
      assume "\<forall>(k, t) \<in> set ats. map_index m k \<noteq> RNil \<or> t = StringType"
      then have t: "\<forall>(k, t) \<in> set ats. type_equal t (type_of (f k))"
        using ty by blast
      from ObjectValue_ok [OF d t]
      have "convertToAttrValue (RMap m) (ObjectType ats) =
          Inr (Some (ObjectKnown ats (map (\<lambda>(k, t). (k, f k)) ats)), [])"
        unfolding conv_object loop by (simp only: sum.case prod.case option.case returning.simps)
      then show "convertToAttrValue (RMap m) (ObjectType ats) =
          Inr (Some (ObjectKnown ats
                 (map (\<lambda>(k, t). (k, converted (map_index m k) t)) ats)), [])"
        unfolding vals .
    }
    {
      assume "\<not> (\<forall>(k, t) \<in> set ats. map_index m k \<noteq> RNil \<or> t = StringType)"
      then have bad: "\<exists>(k, t) \<in> set ats. \<not> type_equal t (type_of (f k))"
        using ty by blast
      from ObjectValue_bad [OF d bad] obtain ds' where
        "ObjectValue ats (map (\<lambda>(k, t). (k, Some (f k))) ats) = Inr (ObjectUnknown ats, ds')"
        "HasError ds'" by auto
      then have "convertToAttrValue (RMap m) (ObjectType ats) =
          Inr (Some (ObjectUnknown ats), ds')"
        unfolding conv_object loop by (simp only: sum.case prod.case option.case returning.simps)
      then show "\<exists>ds. convertToAttrValue (RMap m) (ObjectType ats) =
          Inr (Some (ObjectUnknown ats), ds) \<and> HasError ds"
        using \<open>HasError ds'\<close> by (intro exI [of _ ds']) (rule conjI)
    }
  }
qed

lemma list_elems:
  assumes c: "convertible e" and w: "wf_type e"
  shows "(\<forall>x \<in> set xs. x \<noteq> RNil \<or> e = StringType) \<Longrightarrow>
           convertToAttrValue (RSlice xs) (ListType e) =
             Inr (Some (ListKnown e (map (\<lambda>x. converted x e) xs)), [])"
    and "\<not> (\<forall>x \<in> set xs. x \<noteq> RNil \<or> e = StringType) \<Longrightarrow>
           \<exists>ds. convertToAttrValue (RSlice xs) (ListType e) = Inr (Some (ListUnknown e), ds)
                \<and> HasError ds"
proof -
  let ?vs = "map (\<lambda>x. converted x e) xs"
  have "list_all2 (\<lambda>x v. \<exists>ds. convertToAttrValue x e = Inr (Some v, ds)) xs ?vs"
    using converted_total [OF c] by (simp add: list_all2_conv_all_nth)
  from list_loop_values [OF this, of "[]" "[]"]
  obtain ds where loop: "convert_list_loop xs e [] [] = Inr (map Some ?vs, ds)" by auto
  have ty: "list_all (\<lambda>v. type_equal e (type_of v)) ?vs \<longleftrightarrow>
      (\<forall>x \<in> set xs. x \<noteq> RNil \<or> e = StringType)"
    using typed_iff [OF c w] by (simp add: list_all_iff)
  {
    assume "\<forall>x \<in> set xs. x \<noteq> RNil \<or> e = StringType"
    then have "list_all (\<lambda>v. type_equal e (type_of v)) ?vs" using ty by simp
    from ListValue_ok [OF this]
    show "convertToAttrValue (RSlice xs) (ListType e) = Inr (Some (ListKnown e ?vs), [])"
      unfolding conv_list loop by (simp only: sum.case prod.case returning.simps)
  }
  {
    assume "\<not> (\<forall>x \<in> set xs. x \<noteq> RNil \<or> e = StringType)"
    then have "\<not> list_all (\<lambda>v. type_equal e (type_of v)) ?vs" using ty by simp
    from ListValue_bad [OF this] obtain ds' where
      "ListValue e (map Some ?vs) = Inr (ListUnknown e, ds')" "HasError ds'" by auto
    then have "convertToAttrValue (RSlice xs) (ListType e) = Inr (Some (ListUnknown e), ds')"
      unfolding conv_list loop by (simp only: sum.case prod.case returning.simps)
    then show "\<exists>ds. convertToAttrValue (RSlice xs) (ListType e) = Inr (Some (ListUnknown e), ds)
        \<and> HasError ds"
      using \<open>HasError ds'\<close> by (intro exI [of _ ds']) (rule conjI)
  }
qed

lemma tuple_elems:
  assumes c: "list_all convertible es" and w: "list_all wf_type es"
    and l: "length xs = length es"
  shows "(\<forall>i<length es. xs ! i \<noteq> RNil \<or> es ! i = StringType) \<Longrightarrow>
           convertToAttrValue (RSlice xs) (TupleType es) =
             Inr (Some (TupleKnown es (map2 converted xs es)), [])"
    and "\<not> (\<forall>i<length es. xs ! i \<noteq> RNil \<or> es ! i = StringType) \<Longrightarrow>
           \<exists>ds. convertToAttrValue (RSlice xs) (TupleType es) = Inr (Some (TupleUnknown es), ds)
                \<and> HasError ds"
proof -
  let ?vs = "map2 converted xs es"
  have l2: "length es = length ?vs" using l by simp
  have nth: "?vs ! i = converted (xs ! i) (es ! i)" if "i < length es" for i
    using that l by simp
  have ct: "convertible (es ! i)" "wf_type (es ! i)" if "i < length es" for i
    using that c w by (simp_all add: list_all_length)
  have tot: "\<forall>i<length es. \<exists>ds.
      convertToAttrValue (xs ! i) (es ! i) = Inr (Some (?vs ! i), ds)"
    using converted_total [OF ct(1)] nth by simp
  from tuple_loop_values [OF l l2 tot, of "[]" "[]"]
  obtain ds where loop: "convert_tuple_loop xs es [] [] = Inr (map Some ?vs, ds)" by auto
  have ty: "list_all2 (\<lambda>t v. type_equal t (type_of v)) es ?vs \<longleftrightarrow>
      (\<forall>i<length es. xs ! i \<noteq> RNil \<or> es ! i = StringType)"
    unfolding list_all2_conv_all_nth using l2 typed_iff [OF ct] nth by simp
  {
    assume "\<forall>i<length es. xs ! i \<noteq> RNil \<or> es ! i = StringType"
    then have "list_all2 (\<lambda>t v. type_equal t (type_of v)) es ?vs" using ty by simp
    from TupleValue_ok [OF this]
    show "convertToAttrValue (RSlice xs) (TupleType es) = Inr (Some (TupleKnown es ?vs), [])"
      unfolding conv_tuple loop using l
      by (simp only: sum.case prod.case returning.simps simp_thms if_False)
  }
  {
    assume "\<not> (\<forall>i<length es. xs ! i \<noteq> RNil \<or> es ! i = StringType)"
    then have "\<not> list_all2 (\<lambda>t v. type_equal t (type_of v)) es ?vs" using ty by simp
    from TupleValue_bad [OF l2 this] obtain ds' where
      "TupleValue es (map Some ?vs) = Inr (TupleUnknown es, ds')" "HasError ds'" by auto
    then have "convertToAttrValue (RSlice xs) (TupleType es) = Inr (Some (TupleUnknown es), ds')"
      unfolding conv_tuple loop using l
      by (simp only: sum.case prod.case returning.simps simp_thms if_False)
    then show "\<exists>ds. convertToAttrValue (RSlice xs) (TupleType es) =
        Inr (Some (TupleUnknown es), ds) \<and> HasError ds"
      using \<open>HasError ds'\<close> by (intro exI [of _ ds']) (rule conjI)
  }
qed

text \<open>
  Which conversions report an error, read off the raw value: a scalar of another kind,
  a value that is not a sequence or not a mapping, a tuple of another length, a null
  under a descriptor other than String inside a sequence or an object, and an object
  one of whose fields reports an error. The diagnostics of the elements of a list or
  of a tuple are not among those the conversion of the sequence returns, so that a
  failed element alone does not make the sequence report an error.
\<close>

lemma reports_error_Nil: "\<not> reports_error RNil t"
  by (simp add: reports_error_def convertToAttrValue.simps)

lemma reports_error_Bool: "reports_error x BoolType \<longleftrightarrow> x \<noteq> RNil \<and> as_bool x = None"
  by (cases x) (simp_all add: reports_error_def convertToAttrValue.simps)

lemma reports_error_Number: "reports_error x NumberType \<longleftrightarrow> x \<noteq> RNil \<and> as_float64 x = None"
  by (cases x) (simp_all add: reports_error_def convertToAttrValue.simps)

lemma reports_error_String: "reports_error x StringType \<longleftrightarrow> x \<noteq> RNil \<and> as_string x = None"
  by (cases x) (simp_all add: reports_error_def convertToAttrValue.simps)

lemma reports_error_List:
  assumes "convertible e" and "wf_type e"
  shows "reports_error x (ListType e) \<longleftrightarrow>
     x \<noteq> RNil \<and> (case as_slice x of None \<Rightarrow> True
                 | Some xs \<Rightarrow> \<not> (\<forall>x \<in> set xs. x \<noteq> RNil \<or> e = StringType))"
proof (cases "\<exists>xs. x = RSlice xs")
  case False
  then show ?thesis by (cases x) (simp_all add: reports_error_def convertToAttrValue.simps)
next
  case True
  then obtain xs where x: "x = RSlice xs" by auto
  show ?thesis
  proof (cases "\<forall>x \<in> set xs. x \<noteq> RNil \<or> e = StringType")
    case True
    from list_elems(1) [OF assms True] show ?thesis using True
      by (simp add: x reports_error_def)
  next
    case False
    from list_elems(2) [OF assms False] obtain ds where
      "convertToAttrValue (RSlice xs) (ListType e) = Inr (Some (ListUnknown e), ds)"
      "HasError ds" by auto
    then show ?thesis using False by (simp add: x reports_error_def)
  qed
qed

lemma reports_error_Tuple:
  assumes "list_all convertible es" and "list_all wf_type es"
  shows "reports_error x (TupleType es) \<longleftrightarrow>
     x \<noteq> RNil \<and> (case as_slice x of None \<Rightarrow> True
                 | Some xs \<Rightarrow> length xs \<noteq> length es \<or>
                     \<not> (\<forall>i<length es. xs ! i \<noteq> RNil \<or> es ! i = StringType))"
proof (cases "\<exists>xs. x = RSlice xs")
  case False
  then show ?thesis by (cases x) (simp_all add: reports_error_def convertToAttrValue.simps)
next
  case True
  then obtain xs where x: "x = RSlice xs" by auto
  show ?thesis
  proof (cases "length xs = length es")
    case False
    then show ?thesis by (simp add: x reports_error_def conv_tuple)
  next
    case len: True
    show ?thesis
    proof (cases "\<forall>i<length es. xs ! i \<noteq> RNil \<or> es ! i = StringType")
      case True
      from tuple_elems(1) [OF assms len True] show ?thesis using True len
        by (simp add: x reports_error_def)
    next
      case False
      from tuple_elems(2) [OF assms len False] obtain ds where
        "convertToAttrValue (RSlice xs) (TupleType es) = Inr (Some (TupleUnknown es), ds)"
        "HasError ds" by auto
      then show ?thesis using False len by (simp add: x reports_error_def)
    qed
  qed
qed

lemma reports_error_Object:
  assumes c: "list_all convertible (map snd ats)"
    and d: "distinct (map fst ats)"
    and w: "list_all wf_type (map snd ats)"
  shows "reports_error x (ObjectType ats) \<longleftrightarrow>
     x \<noteq> RNil \<and> (case as_map x of None \<Rightarrow> True
                 | Some m \<Rightarrow> (\<exists>(k, t) \<in> set ats. reports_error (map_index m k) t) \<or>
                     \<not> (\<forall>(k, t) \<in> set ats. map_index m k \<noteq> RNil \<or> t = StringType))"
proof (cases "\<exists>m. x = RMap m")
  case False
  then show ?thesis by (cases x) (simp_all add: reports_error_def convertToAttrValue.simps)
next
  case True
  then obtain m where x: "x = RMap m" by auto
  show ?thesis
  proof (cases "\<exists>(k, t) \<in> set ats. reports_error (map_index m k) t")
    case True
    from object_fields(1) [OF c d w True] obtain ds where
      "convertToAttrValue (RMap m) (ObjectType ats) = Inr (Some (ObjectNull ats), ds)"
      "HasError ds" by auto
    then have "reports_error (RMap m) (ObjectType ats)" by (simp add: reports_error_def)
    then show ?thesis using True unfolding x by (simp only: as_map.simps option.case simp_thms raw.distinct)
  next
    case n: False
    show ?thesis
    proof (cases "\<forall>(k, t) \<in> set ats. map_index m k \<noteq> RNil \<or> t = StringType")
      case True
      from object_fields(2) [OF c d w n True]
      have "\<not> reports_error (RMap m) (ObjectType ats)" by (simp add: reports_error_def)
      then show ?thesis using n True unfolding x
        by (simp only: as_map.simps option.case simp_thms raw.distinct)
    next
      case False
      from object_fields(3) [OF c d w n False] obtain ds where
        "convertToAttrValue (RMap m) (ObjectType ats) = Inr (Some (ObjectUnknown ats), ds)"
        "HasError ds" by auto
      then have "reports_error (RMap m) (ObjectType ats)" by (simp add: reports_error_def)
      then show ?thesis using n False unfolding x
        by (simp only: as_map.simps option.case simp_thms raw.distinct)
    qed
  qed
qed

section \<open>Conversion against list and object descriptors\<close>

text \<open>
  C7. The claim asks that the diagnostics of every failing element reach the caller.
  At the raw sequence holding the one string \<open>a\<close> and the target list of Bool, the
  element conversion reports \<open>expected bool\<close>, the loop appends it to \<open>diags\<close>, and the
  function returns the diagnostics of \<open>types.ListValue\<close> instead, which are empty.
\<close>

theorem convert_list_drops_element_diagnostics:
  "convertToAttrValue (RString ''a'') BoolType =
     Inr (Some BoolNull, [Diagnostic SeverityError ''Conversion Error'' ''expected bool''])
   \<and> convertToAttrValue (RSlice [RString ''a'']) (ListType BoolType) =
     Inr (Some (ListKnown BoolType [BoolNull]), [])"
  by (simp add: convertToAttrValue.simps ListValue_def)

text \<open>
  C6, as the claim states it, fails for lists and tuples. The string \<open>a\<close> fails
  against Bool. Beside it a null element converts to the String null, which
  \<open>types.ListValue\<close> and \<open>types.TupleValue\<close> refuse under Bool: the result is the
  unknown list, or the unknown tuple, which holds no element, so that no sibling is
  kept. Against a list of the Dynamic wildcard the failed element is the nil interface
  and \<open>types.ListValue\<close> dereferences it.
\<close>

theorem siblings_lost_beside_null:
  "convertToAttrValue (RString ''a'') BoolType =
     Inr (Some BoolNull, [Diagnostic SeverityError ''Conversion Error'' ''expected bool''])
   \<and> convertToAttrValue (RSlice [RString ''a'', RNil]) (ListType BoolType) =
     Inr (Some (ListUnknown BoolType),
          [Diagnostic SeverityError ''Invalid List Element Type'' ''1''])
   \<and> convertToAttrValue (RSlice [RString ''a'', RNil]) (TupleType [BoolType, BoolType]) =
     Inr (Some (TupleUnknown [BoolType, BoolType]),
          [Diagnostic SeverityError ''Invalid Tuple Element'' ''1''])
   \<and> convertToAttrValue (RSlice [RString ''a'', RNil]) (ListType DynamicType) =
     Inl NilPointerDereference"
  by (simp add: convertToAttrValue.simps ListValue_def TupleValue_def string_of_nat_1)

text \<open>
  C6, amended. The descriptors are those built, at every level, from Bool, Number,
  String, List, Tuple, Object and Map, with each key once in an object descriptor.
  Conversion of a string-keyed mapping against an object descriptor reads the raw
  mapping only at the keys the descriptor declares, so that keys present only in raw are
  ignored, and converts \<open>m[key]\<close>, which is null for an absent key, against the
  descriptor of each declared field; every such conversion returns a value. When a
  field conversion reports an error, the result is the null object of the descriptor,
  with an error among the diagnostics. When none does and every declared field is
  non-null in raw or declared String, the result is the known object with exactly the
  declared fields, each the conversion of its raw value, and no diagnostics. When none
  does and a field declared with another descriptor is null or absent, the result is
  the unknown object, with an error among the diagnostics. Lists, and tuples with as
  many elements as descriptors, differ: when every element is non-null or its descriptor
  is String, the result is the known list or tuple of the conversions of all elements,
  so that the placeholder of a failed element stands beside its siblings; when an
  element is null under another descriptor, the result is the unknown list or tuple,
  with an error among the diagnostics.
\<close>

theorem object_conversion:
  "((\<forall>k \<in> fst ` set ats. map_of m k = map_of m' k) \<longrightarrow>
      convertToAttrValue (RMap m) (ObjectType ats) = convertToAttrValue (RMap m') (ObjectType ats))
   \<and> (convertible t \<longrightarrow>
        (\<exists>ds. convertToAttrValue x t = Inr (Some (converted x t), ds)))
   \<and> (convertible (ObjectType ats) \<and> wf_type (ObjectType ats)
        \<and> (\<exists>(k, t) \<in> set ats. reports_error (map_index m k) t) \<longrightarrow>
        (\<exists>ds. convertToAttrValue (RMap m) (ObjectType ats) = Inr (Some (ObjectNull ats), ds)
             \<and> HasError ds))
   \<and> (convertible (ObjectType ats) \<and> wf_type (ObjectType ats)
        \<and> \<not> (\<exists>(k, t) \<in> set ats. reports_error (map_index m k) t)
        \<and> (\<forall>(k, t) \<in> set ats. map_index m k \<noteq> RNil \<or> t = StringType) \<longrightarrow>
        convertToAttrValue (RMap m) (ObjectType ats) =
          Inr (Some (ObjectKnown ats (map (\<lambda>(k, t). (k, converted (map_index m k) t)) ats)),
               []))
   \<and> (convertible (ObjectType ats) \<and> wf_type (ObjectType ats)
        \<and> \<not> (\<exists>(k, t) \<in> set ats. reports_error (map_index m k) t)
        \<and> \<not> (\<forall>(k, t) \<in> set ats. map_index m k \<noteq> RNil \<or> t = StringType) \<longrightarrow>
        (\<exists>ds. convertToAttrValue (RMap m) (ObjectType ats) = Inr (Some (ObjectUnknown ats), ds)
             \<and> HasError ds))
   \<and> (convertible e \<and> wf_type e \<and> (\<forall>x \<in> set xs. x \<noteq> RNil \<or> e = StringType) \<longrightarrow>
        (\<exists>ds. convertToAttrValue (RSlice xs) (ListType e) =
           Inr (Some (ListKnown e (map (\<lambda>x. converted x e) xs)), ds)))
   \<and> (convertible e \<and> wf_type e \<and> \<not> (\<forall>x \<in> set xs. x \<noteq> RNil \<or> e = StringType) \<longrightarrow>
        (\<exists>ds. convertToAttrValue (RSlice xs) (ListType e) = Inr (Some (ListUnknown e), ds)
             \<and> HasError ds))
   \<and> (list_all convertible es \<and> list_all wf_type es \<and> length xs = length es
        \<and> (\<forall>i<length es. xs ! i \<noteq> RNil \<or> es ! i = StringType) \<longrightarrow>
        (\<exists>ds. convertToAttrValue (RSlice xs) (TupleType es) =
           Inr (Some (TupleKnown es (map2 converted xs es)), ds)))
   \<and> (list_all convertible es \<and> list_all wf_type es \<and> length xs = length es
        \<and> \<not> (\<forall>i<length es. xs ! i \<noteq> RNil \<or> es ! i = StringType) \<longrightarrow>
        (\<exists>ds. convertToAttrValue (RSlice xs) (TupleType es) = Inr (Some (TupleUnknown es), ds)
             \<and> HasError ds))"
proof (intro conjI impI)
  assume "\<forall>k \<in> fst ` set ats. map_of m k = map_of m' k"
  then have "convert_object_loop ats m [] [] = convert_object_loop ats m' [] []"
    by (rule object_loop_only_declared)
  then show "convertToAttrValue (RMap m) (ObjectType ats) =
      convertToAttrValue (RMap m') (ObjectType ats)"
    by (simp only: conv_object)
next
  assume "convertible t"
  then show "\<exists>ds. convertToAttrValue x t = Inr (Some (converted x t), ds)"
    by (rule converted_total)
next
  assume a: "convertible (ObjectType ats) \<and> wf_type (ObjectType ats)
        \<and> (\<exists>(k, t) \<in> set ats. reports_error (map_index m k) t)"
  then have c: "list_all convertible (map snd ats)" and d: "distinct (map fst ats)"
    and w: "list_all wf_type (map snd ats)" by simp_all
  from a have "\<exists>(k, t) \<in> set ats. reports_error (map_index m k) t" by (elim conjE)
  then show "\<exists>ds. convertToAttrValue (RMap m) (ObjectType ats) = Inr (Some (ObjectNull ats), ds)
             \<and> HasError ds"
    by (rule object_fields(1) [OF c d w])
next
  assume a: "convertible (ObjectType ats) \<and> wf_type (ObjectType ats)
        \<and> \<not> (\<exists>(k, t) \<in> set ats. reports_error (map_index m k) t)
        \<and> (\<forall>(k, t) \<in> set ats. map_index m k \<noteq> RNil \<or> t = StringType)"
  then have c: "list_all convertible (map snd ats)" and d: "distinct (map fst ats)"
    and w: "list_all wf_type (map snd ats)" by simp_all
  from a have n: "\<not> (\<exists>(k, t) \<in> set ats. reports_error (map_index m k) t)"
    and t: "\<forall>(k, t) \<in> set ats. map_index m k \<noteq> RNil \<or> t = StringType"
    by simp_all
  show "convertToAttrValue (RMap m) (ObjectType ats) =
          Inr (Some (ObjectKnown ats (map (\<lambda>(k, t). (k, converted (map_index m k) t)) ats)),
               [])"
    by (rule object_fields(2) [OF c d w n t])
next
  assume a: "convertible (ObjectType ats) \<and> wf_type (ObjectType ats)
        \<and> \<not> (\<exists>(k, t) \<in> set ats. reports_error (map_index m k) t)
        \<and> \<not> (\<forall>(k, t) \<in> set ats. map_index m k \<noteq> RNil \<or> t = StringType)"
  then have c: "list_all convertible (map snd ats)" and d: "distinct (map fst ats)"
    and w: "list_all wf_type (map snd ats)" by simp_all
  from a have n: "\<not> (\<exists>(k, t) \<in> set ats. reports_error (map_index m k) t)"
    and t: "\<not> (\<forall>(k, t) \<in> set ats. map_index m k \<noteq> RNil \<or> t = StringType)"
    by simp_all
  show "\<exists>ds. convertToAttrValue (RMap m) (ObjectType ats) = Inr (Some (ObjectUnknown ats), ds)
             \<and> HasError ds"
    by (rule object_fields(3) [OF c d w n t])
next
  assume a: "convertible e \<and> wf_type e \<and> (\<forall>x \<in> set xs. x \<noteq> RNil \<or> e = StringType)"
  then have c: "convertible e" and w: "wf_type e"
    and t: "\<forall>x \<in> set xs. x \<noteq> RNil \<or> e = StringType"
    by simp_all
  from list_elems(1) [OF c w t]
  show "\<exists>ds. convertToAttrValue (RSlice xs) (ListType e) =
           Inr (Some (ListKnown e (map (\<lambda>x. converted x e) xs)), ds)"
    by (rule exI)
next
  assume a: "convertible e \<and> wf_type e \<and> \<not> (\<forall>x \<in> set xs. x \<noteq> RNil \<or> e = StringType)"
  then have c: "convertible e" and w: "wf_type e"
    and t: "\<not> (\<forall>x \<in> set xs. x \<noteq> RNil \<or> e = StringType)"
    by simp_all
  show "\<exists>ds. convertToAttrValue (RSlice xs) (ListType e) = Inr (Some (ListUnknown e), ds)
             \<and> HasError ds"
    by (rule list_elems(2) [OF c w t])
next
  assume a: "list_all convertible es \<and> list_all wf_type es \<and> length xs = length es
        \<and> (\<forall>i<length es. xs ! i \<noteq> RNil \<or> es ! i = StringType)"
  then have c: "list_all convertible es" and w: "list_all wf_type es"
    and l: "length xs = length es"
    and t: "\<forall>i<length es. xs ! i \<noteq> RNil \<or> es ! i = StringType"
    by simp_all
  from tuple_elems(1) [OF c w l t]
  show "\<exists>ds. convertToAttrValue (RSlice xs) (TupleType es) =
           Inr (Some (TupleKnown es (map2 converted xs es)), ds)"
    by (rule exI)
next
  assume a: "list_all convertible es \<and> list_all wf_type es \<and> length xs = length es
        \<and> \<not> (\<forall>i<length es. xs ! i \<noteq> RNil \<or> es ! i = StringType)"
  then have c: "list_all convertible es" and w: "list_all wf_type es"
    and l: "length xs = length es"
    and t: "\<not> (\<forall>i<length es. xs ! i \<noteq> RNil \<or> es ! i = StringType)"
    by simp_all
  show "\<exists>ds. convertToAttrValue (RSlice xs) (TupleType es) = Inr (Some (TupleUnknown es), ds)
             \<and> HasError ds"
    by (rule tuple_elems(2) [OF c w l t])
qed

text \<open>
  The theorem at an object with one extra key and one field of the wrong kind, at an
  object with an absent String field and an extra key, at an object with an absent Bool
  field, and at lists and tuples with a failed element and with a null element.
\<close>

theorem object_conversion_witness:
  "convertToAttrValue (RMap [(''a'', RString ''x''), (''b'', RFloat64 1), (''c'', RBool True)])
       (ObjectType [(''a'', StringType), (''b'', BoolType)]) =
     convertToAttrValue (RMap [(''a'', RString ''x''), (''b'', RFloat64 1)])
       (ObjectType [(''a'', StringType), (''b'', BoolType)])
   \<and> (\<exists>ds. convertToAttrValue (RFloat64 1) BoolType = Inr (Some BoolNull, ds))
   \<and> (\<exists>ds. convertToAttrValue (RMap [(''a'', RString ''x''), (''b'', RFloat64 1), (''c'', RBool True)])
            (ObjectType [(''a'', StringType), (''b'', BoolType)]) =
          Inr (Some (ObjectNull [(''a'', StringType), (''b'', BoolType)]), ds) \<and> HasError ds)
   \<and> convertToAttrValue (RMap [(''b'', RBool True), (''z'', RFloat64 1)])
       (ObjectType [(''a'', StringType), (''b'', BoolType)]) =
     Inr (Some (ObjectKnown [(''a'', StringType), (''b'', BoolType)]
                  [(''a'', StringNull), (''b'', BoolValue True)]), [])
   \<and> (\<exists>ds. convertToAttrValue (RMap [(''a'', RString ''x'')])
            (ObjectType [(''a'', StringType), (''b'', BoolType)]) =
          Inr (Some (ObjectUnknown [(''a'', StringType), (''b'', BoolType)]), ds) \<and> HasError ds)
   \<and> (\<exists>ds. convertToAttrValue (RSlice [RString ''a'', RBool True]) (ListType BoolType) =
          Inr (Some (ListKnown BoolType [BoolNull, BoolValue True]), ds))
   \<and> (\<exists>ds. convertToAttrValue (RSlice [RBool True, RNil]) (ListType BoolType) =
          Inr (Some (ListUnknown BoolType), ds) \<and> HasError ds)
   \<and> (\<exists>ds. convertToAttrValue (RSlice [RString ''a'', RNil]) (TupleType [BoolType, StringType]) =
          Inr (Some (TupleKnown [BoolType, StringType] [BoolNull, StringNull]), ds))
   \<and> (\<exists>ds. convertToAttrValue (RSlice [RBool True, RNil]) (TupleType [BoolType, NumberType]) =
          Inr (Some (TupleUnknown [BoolType, NumberType]), ds) \<and> HasError ds)"
proof -
  note ev = convertToAttrValue.simps converted_def reports_error_def map_index_def
  note T1 = object_conversion [where ats = "[(''a'', StringType), (''b'', BoolType)]"
      and m = "[(''a'', RString ''x''), (''b'', RFloat64 1), (''c'', RBool True)]"
      and m' = "[(''a'', RString ''x''), (''b'', RFloat64 1)]"
      and t = BoolType and x = "RFloat64 1"
      and e = BoolType and xs = "[RString ''a'', RBool True]"
      and es = "[BoolType, StringType]"]
  note T2 = object_conversion [where ats = "[(''a'', StringType), (''b'', BoolType)]"
      and m = "[(''b'', RBool True), (''z'', RFloat64 1)]"
      and e = BoolType and xs = "[RBool True, RNil]"
      and es = "[BoolType, NumberType]"]
  note T3 = object_conversion [where ats = "[(''a'', StringType), (''b'', BoolType)]"
      and m = "[(''a'', RString ''x'')]"
      and xs = "[RString ''a'', RNil]"
      and es = "[BoolType, StringType]"]
  have w1: "convertToAttrValue (RMap [(''a'', RString ''x''), (''b'', RFloat64 1), (''c'', RBool True)])
       (ObjectType [(''a'', StringType), (''b'', BoolType)]) =
     convertToAttrValue (RMap [(''a'', RString ''x''), (''b'', RFloat64 1)])
       (ObjectType [(''a'', StringType), (''b'', BoolType)])"
    by (rule T1 [THEN conjunct1, THEN mp]) simp
  have w2: "\<exists>ds. convertToAttrValue (RFloat64 1) BoolType = Inr (Some BoolNull, ds)"
    using T1 [THEN conjunct2, THEN conjunct1, THEN mp] by (simp add: ev)
  have w3: "\<exists>ds. convertToAttrValue (RMap [(''a'', RString ''x''), (''b'', RFloat64 1), (''c'', RBool True)])
            (ObjectType [(''a'', StringType), (''b'', BoolType)]) =
          Inr (Some (ObjectNull [(''a'', StringType), (''b'', BoolType)]), ds) \<and> HasError ds"
    by (rule T1 [THEN conjunct2, THEN conjunct2, THEN conjunct1, THEN mp]) (simp add: ev)
  have w4: "convertToAttrValue (RMap [(''b'', RBool True), (''z'', RFloat64 1)])
       (ObjectType [(''a'', StringType), (''b'', BoolType)]) =
     Inr (Some (ObjectKnown [(''a'', StringType), (''b'', BoolType)]
                  [(''a'', StringNull), (''b'', BoolValue True)]), [])"
    using T2 [THEN conjunct2, THEN conjunct2, THEN conjunct2, THEN conjunct1, THEN mp]
    by (simp add: ev)
  have w5: "\<exists>ds. convertToAttrValue (RMap [(''a'', RString ''x'')])
            (ObjectType [(''a'', StringType), (''b'', BoolType)]) =
          Inr (Some (ObjectUnknown [(''a'', StringType), (''b'', BoolType)]), ds) \<and> HasError ds"
    by (rule T3 [THEN conjunct2, THEN conjunct2, THEN conjunct2, THEN conjunct2,
          THEN conjunct1, THEN mp]) (simp add: ev)
  have w6: "\<exists>ds. convertToAttrValue (RSlice [RString ''a'', RBool True]) (ListType BoolType) =
          Inr (Some (ListKnown BoolType [BoolNull, BoolValue True]), ds)"
    using T1 [THEN conjunct2, THEN conjunct2, THEN conjunct2, THEN conjunct2,
          THEN conjunct2, THEN conjunct1, THEN mp]
    by (simp add: ev)
  have w7: "\<exists>ds. convertToAttrValue (RSlice [RBool True, RNil]) (ListType BoolType) =
          Inr (Some (ListUnknown BoolType), ds) \<and> HasError ds"
    by (rule T2 [THEN conjunct2, THEN conjunct2, THEN conjunct2, THEN conjunct2,
          THEN conjunct2, THEN conjunct2, THEN conjunct1, THEN mp]) simp
  have w8: "\<exists>ds. convertToAttrValue (RSlice [RString ''a'', RNil]) (TupleType [BoolType, StringType]) =
          Inr (Some (TupleKnown [BoolType, StringType] [BoolNull, StringNull]), ds)"
    using T3 [THEN conjunct2, THEN conjunct2, THEN conjunct2, THEN conjunct2,
          THEN conjunct2, THEN conjunct2, THEN conjunct2, THEN conjunct1, THEN mp]
    by (simp add: ev less_Suc_eq)
  have w9: "\<exists>ds. convertToAttrValue (RSlice [RBool True, RNil]) (TupleType [BoolType, NumberType]) =
          Inr (Some (TupleUnknown [BoolType, NumberType]), ds) \<and> HasError ds"
    by (rule T2 [THEN conjunct2, THEN conjunct2, THEN conjunct2, THEN conjunct2,
          THEN conjunct2, THEN conjunct2, THEN conjunct2, THEN conjunct2, THEN mp])
      (simp add: less_Suc_eq)
  show ?thesis using w1 w2 w3 w4 w5 w6 w7 w8 w9 by (intro conjI)
qed

section \<open>The projections of \<open>Read\<close>\<close>

lemma as_map_SomeD: "as_map out \<noteq> None \<Longrightarrow> \<exists>m. out = RMap m"
  by (cases out) auto

lemma non_nil_types_Some:
  "non_nil_types (map (\<lambda>(x, out). (x, Some (g out))) L) = Some (map (\<lambda>(x, out). (x, g out)) L)"
  by (induction L) auto

lemma output_clean:
  assumes "json_decoded (RMap myOutput)"
  shows "type_equal (output_type (RMap myOutput)) (type_of (output_value (RMap myOutput)))"
proof -
  have "json_decoded (map_index myOutput ''value'')"
    using assms by (rule json_decoded_map_index)
  from infer_then_convert_clean(2,3) [OF this]
  show ?thesis by (simp add: output_type_def output_value_def clean_def type_equal_refl)
qed

lemma ObjectValue_of_outputs:
  assumes d: "distinct (map fst L)"
    and ent: "\<forall>(x, out) \<in> set L. \<exists>m. out = RMap m \<and> json_decoded out"
  shows "ObjectValue_of_maps (map (\<lambda>(x, out). (x, Some (output_type out))) L)
           (map (\<lambda>(x, out). (x, Some (output_value out))) L) =
         Inr (ObjectKnown (map (\<lambda>(x, out). (x, output_type out)) L)
                (map (\<lambda>(x, out). (x, output_value out)) L), [])"
proof -
  define f where "f k = output_value (the (map_of L k))" for k
  let ?ats = "map (\<lambda>(x, out). (x, output_type out)) L"
  have fk: "f x = output_value out" if "(x, out) \<in> set L" for x out
    using that d by (simp add: f_def)
  have da: "distinct (map fst ?ats)" using d by (simp add: comp_def case_prod_unfold)
  have te: "\<forall>(k, t) \<in> set ?ats. type_equal t (type_of (f k))"
    using ent fk output_clean by fastforce
  have a1: "map (\<lambda>(k, t). (k, Some (f k))) ?ats = map (\<lambda>(x, out). (x, Some (output_value out))) L"
    using fk by (auto simp: comp_def)
  have a2: "map (\<lambda>(k, t). (k, f k)) ?ats = map (\<lambda>(x, out). (x, output_value out)) L"
    using fk by (auto simp: comp_def)
  from ObjectValue_ok [OF da te] show ?thesis
    unfolding ObjectValue_of_maps_def non_nil_types_Some a1 a2 by simp
qed

lemma outputs_loop_json:
  assumes ent: "\<forall>x \<in> set keys. \<exists>myOutput. map_index outputs x = RMap myOutput
                  \<and> json_decoded (RMap myOutput)"
    and dk: "distinct keys"
    and f1: "fst ` set (sensitiveTypes st) \<inter> set keys = {}"
    and f2: "fst ` set (sensitiveValues st) \<inter> set keys = {}"
    and f3: "fst ` set (nonSensitiveTypes st) \<inter> set keys = {}"
    and f4: "fst ` set (nonSensitiveValues st) \<inter> set keys = {}"
  shows "outputs_loop keys outputs st = Inr (Some
    \<lparr>sensitiveTypes = sensitiveTypes st
        @ map (\<lambda>x. (x, Some (output_type (map_index outputs x)))) keys,
     sensitiveValues = sensitiveValues st
        @ map (\<lambda>x. (x, Some (output_value (map_index outputs x)))) keys,
     nonSensitiveTypes = nonSensitiveTypes st
        @ map (\<lambda>x. (x, Some (output_type (map_index outputs x))))
            (filter (\<lambda>x. sensitive_field (map_index outputs x) = RBool False) keys),
     nonSensitiveValues = nonSensitiveValues st
        @ map (\<lambda>x. (x, Some (output_value (map_index outputs x))))
            (filter (\<lambda>x. sensitive_field (map_index outputs x) = RBool False) keys)\<rparr>)"
  using assms
proof (induction keys arbitrary: st)
  case Nil
  then show ?case by simp
next
  case (Cons x keys)
  from Cons.prems(1) obtain myOutput where
    out: "map_index outputs x = RMap myOutput" and js: "json_decoded (RMap myOutput)"
    by auto
  let ?v = "map_index myOutput ''value''"
  have jv: "json_decoded ?v" using js by (rule json_decoded_map_index)
  note ic = infer_then_convert_clean [OF jv]
  have ty: "inferAttrType ?v = Inr (output_type (RMap myOutput))"
    using ic(1) by (simp add: output_type_def)
  have cv: "convertToAttrValue ?v (output_type (RMap myOutput)) =
      Inr (Some (output_value (RMap myOutput)), [])"
    using ic(3) by (simp add: output_type_def output_value_def clean_def)
  let ?t = "Some (output_type (RMap myOutput))" and ?a = "Some (output_value (RMap myOutput))"
  let ?st1 = "st\<lparr>sensitiveTypes := sensitiveTypes st @ [(x, ?t)],
                 sensitiveValues := sensitiveValues st @ [(x, ?a)]\<rparr>"
  let ?st2 = "if map_index myOutput ''sensitive'' = RBool False
              then ?st1\<lparr>nonSensitiveTypes := nonSensitiveTypes st @ [(x, ?t)],
                        nonSensitiveValues := nonSensitiveValues st @ [(x, ?a)]\<rparr>
              else ?st1"
  have u: "AList.update x ?t (sensitiveTypes st) = sensitiveTypes st @ [(x, ?t)]"
    "AList.update x ?a (sensitiveValues st) = sensitiveValues st @ [(x, ?a)]"
    "AList.update x ?t (nonSensitiveTypes st) = nonSensitiveTypes st @ [(x, ?t)]"
    "AList.update x ?a (nonSensitiveValues st) = nonSensitiveValues st @ [(x, ?a)]"
    using Cons.prems(3-6) by (auto intro!: update_fresh)
  have step: "outputs_loop (x # keys) outputs st = outputs_loop keys outputs ?st2"
    by (simp add: out ty cv u Let_def)
  have p1: "\<forall>x \<in> set keys. \<exists>myOutput. map_index outputs x = RMap myOutput
                  \<and> json_decoded (RMap myOutput)"
    using Cons.prems(1) by simp
  have p2: "distinct keys" using Cons.prems(2) by simp
  have p3: "fst ` set (sensitiveTypes ?st2) \<inter> set keys = {}"
    "fst ` set (sensitiveValues ?st2) \<inter> set keys = {}"
    "fst ` set (nonSensitiveTypes ?st2) \<inter> set keys = {}"
    "fst ` set (nonSensitiveValues ?st2) \<inter> set keys = {}"
    using Cons.prems(2-6) by auto
  show ?case
    unfolding step Cons.IH [OF p1 p2 p3]
    by (simp add: out)
qed

lemma Read_outputs_json:
  assumes js: "json_decoded (RMap outputs)"
    and ent: "\<forall>(x, out) \<in> set outputs. as_map out \<noteq> None"
    and ne: "\<not> HasError resp"
  shows "Read_outputs outputs resp =
     Inr (StateSet
       (DynamicKnown (ObjectKnown (map (\<lambda>(x, out). (x, output_type out)) outputs)
                        (map (\<lambda>(x, out). (x, output_value out)) outputs)))
       (DynamicKnown (ObjectKnown
          (map (\<lambda>(x, out). (x, output_type out))
             (filter (\<lambda>(x, out). sensitive_field out = RBool False) outputs))
          (map (\<lambda>(x, out). (x, output_value out))
             (filter (\<lambda>(x, out). sensitive_field out = RBool False) outputs))))
       resp)"
proof -
  let ?keys = "map fst outputs"
  let ?N = "filter (\<lambda>(x, out). sensitive_field out = RBool False) outputs"
  have d: "distinct ?keys" using js by simp
  have mi: "map_index outputs x = out" if "(x, out) \<in> set outputs" for x out
    using d that by (rule map_index_distinct)
  have obj: "\<exists>m. out = RMap m \<and> json_decoded out" if "(x, out) \<in> set outputs" for x out
  proof -
    have "json_decoded out" using js that by (force simp: list_all_iff)
    moreover have "\<exists>m. out = RMap m" using ent that by (auto intro: as_map_SomeD)
    ultimately show ?thesis by simp
  qed
  have e1: "\<forall>x \<in> set ?keys. \<exists>myOutput. map_index outputs x = RMap myOutput
                  \<and> json_decoded (RMap myOutput)"
    using mi obj by fastforce
  have fl: "filter (\<lambda>x. sensitive_field (map_index outputs x) = RBool False) ?keys = map fst ?N"
    using mi by (auto simp: filter_map comp_def case_prod_unfold intro!: arg_cong [where f = "map fst"] filter_cong)
  have loop: "outputs_loop ?keys outputs
      \<lparr>sensitiveTypes = [], sensitiveValues = [], nonSensitiveTypes = [],
       nonSensitiveValues = []\<rparr> =
    Inr (Some
      \<lparr>sensitiveTypes = map (\<lambda>(x, out). (x, Some (output_type out))) outputs,
       sensitiveValues = map (\<lambda>(x, out). (x, Some (output_value out))) outputs,
       nonSensitiveTypes = map (\<lambda>(x, out). (x, Some (output_type out))) ?N,
       nonSensitiveValues = map (\<lambda>(x, out). (x, Some (output_value out))) ?N\<rparr>)"
    by (subst outputs_loop_json [OF e1 d]) (auto simp: fl mi)
  have o1: "ObjectValue_of_maps (map (\<lambda>(x, out). (x, Some (output_type out))) outputs)
           (map (\<lambda>(x, out). (x, Some (output_value out))) outputs) =
         Inr (ObjectKnown (map (\<lambda>(x, out). (x, output_type out)) outputs)
                (map (\<lambda>(x, out). (x, output_value out)) outputs), [])"
    using d obj by (intro ObjectValue_of_outputs) auto
  have dN: "distinct (map fst ?N)" using d by (rule distinct_map_filter)
  have o2: "ObjectValue_of_maps (map (\<lambda>(x, out). (x, Some (output_type out))) ?N)
           (map (\<lambda>(x, out). (x, Some (output_value out))) ?N) =
         Inr (ObjectKnown (map (\<lambda>(x, out). (x, output_type out)) ?N)
                (map (\<lambda>(x, out). (x, output_value out)) ?N), [])"
    using dN obj by (intro ObjectValue_of_outputs) auto
  show ?thesis
    unfolding Read_outputs_def loop
    by (simp add: o1 o2 ne Let_def)
qed

text \<open>
  C2. For every decoded map of outputs whose entries are objects, reached with no
  error in the response, \<open>Read\<close> sets both projections: the full object has one entry
  for every output, the redacted object has exactly the outputs whose \<open>sensitive\<close> field
  is \<open>false\<close>, every output of the redacted object has in the full object the same
  descriptor and the same value, and the descriptor and value of an output are the
  inferred type of its \<open>value\<close> field and the conversion of that field against it.
\<close>

theorem projections:
  assumes js: "json_decoded (RMap outputs)"
    and ent: "\<forall>(x, out) \<in> set outputs. as_map out \<noteq> None"
    and ne: "\<not> HasError resp"
  shows "\<exists>ft fv nt nv.
     Read_outputs outputs resp =
       Inr (StateSet (DynamicKnown (ObjectKnown ft fv)) (DynamicKnown (ObjectKnown nt nv)) resp)
     \<and> fst ` set ft = fst ` set outputs \<and> fst ` set fv = fst ` set outputs
     \<and> fst ` set nt = {x. \<exists>out. (x, out) \<in> set outputs \<and> sensitive_field out = RBool False}
     \<and> fst ` set nv = {x. \<exists>out. (x, out) \<in> set outputs \<and> sensitive_field out = RBool False}
     \<and> (\<forall>x \<in> fst ` set nv. map_of nt x = map_of ft x \<and> map_of nv x = map_of fv x)
     \<and> (\<forall>(x, out) \<in> set outputs. \<exists>t v.
           inferAttrType (value_field out) = Inr t
         \<and> convertToAttrValue (value_field out) t = Inr (Some v, [])
         \<and> map_of ft x = Some t \<and> map_of fv x = Some v)"
proof -
  let ?N = "filter (\<lambda>(x, out). sensitive_field out = RBool False) outputs"
  let ?ft = "map (\<lambda>(x, out). (x, output_type out)) outputs"
  let ?fv = "map (\<lambda>(x, out). (x, output_value out)) outputs"
  let ?nt = "map (\<lambda>(x, out). (x, output_type out)) ?N"
  let ?nv = "map (\<lambda>(x, out). (x, output_value out)) ?N"
  have d: "distinct (map fst outputs)" using js by simp
  have dN: "distinct (map fst ?N)" using d by (rule distinct_map_filter)
  have r: "Read_outputs outputs resp =
       Inr (StateSet (DynamicKnown (ObjectKnown ?ft ?fv)) (DynamicKnown (ObjectKnown ?nt ?nv)) resp)"
    using js ent ne by (rule Read_outputs_json)
  have k1: "fst ` set ?ft = fst ` set outputs" "fst ` set ?fv = fst ` set outputs"
    by force+
  have k2: "fst ` set ?nt = {x. \<exists>out. (x, out) \<in> set outputs \<and> sensitive_field out = RBool False}"
    "fst ` set ?nv = {x. \<exists>out. (x, out) \<in> set outputs \<and> sensitive_field out = RBool False}"
    by force+
  have same: "map_of ?nt x = map_of ?ft x \<and> map_of ?nv x = map_of ?fv x"
    if "x \<in> fst ` set ?nv" for x
  proof -
    from that obtain out where o: "(x, out) \<in> set ?N" by force
    then have o': "(x, out) \<in> set outputs" by simp
    show ?thesis
      by (simp only: map_of_map_entry [OF dN o] map_of_map_entry [OF d o'])
  qed
  have full: "\<exists>t v. inferAttrType (value_field out) = Inr t
         \<and> convertToAttrValue (value_field out) t = Inr (Some v, [])
         \<and> map_of ?ft x = Some t \<and> map_of ?fv x = Some v"
    if o: "(x, out) \<in> set outputs" for x out
  proof -
    have "json_decoded out" using js o by (force simp: list_all_iff)
    moreover have "as_map out \<noteq> None" using ent o by blast
    then obtain m where m: "out = RMap m" by (cases out) auto
    ultimately have "json_decoded (value_field out)"
      by (simp only: value_field.simps json_decoded_map_index)
    from infer_then_convert_clean(1,3) [OF this]
    have "inferAttrType (value_field out) = Inr (output_type out)"
      "convertToAttrValue (value_field out) (output_type out) = Inr (Some (output_value out), [])"
      by (simp_all add: output_type_def output_value_def clean_def)
    then show ?thesis
      using map_of_map_entry [OF d o, of output_type] map_of_map_entry [OF d o, of output_value]
      by blast
  qed
  have full': "\<forall>(x, out) \<in> set outputs. \<exists>t v.
           inferAttrType (value_field out) = Inr t
         \<and> convertToAttrValue (value_field out) t = Inr (Some v, [])
         \<and> map_of ?ft x = Some t \<and> map_of ?fv x = Some v"
    using full by blast
  have same': "\<forall>x \<in> fst ` set ?nv. map_of ?nt x = map_of ?ft x \<and> map_of ?nv x = map_of ?fv x"
    using same by blast
  show ?thesis
    apply (rule exI [of _ ?ft], rule exI [of _ ?fv], rule exI [of _ ?nt], rule exI [of _ ?nv])
    apply (intro conjI)
          apply (rule r)
         apply (rule k1(1))
        apply (rule k1(2))
       apply (rule k2(1))
      apply (rule k2(2))
     apply (rule same')
    apply (rule full')
    done
qed

text \<open>
  The theorem at the outputs \<open>x\<close> (value 5, not sensitive) and \<open>y\<close> (a string,
  sensitive): the full projection holds \<open>x\<close> and \<open>y\<close>, the redacted one holds \<open>x\<close>.
\<close>

theorem projections_witness:
  "json_decoded (RMap [(''x'', RMap [(''value'', RFloat64 5), (''sensitive'', RBool False)]),
                       (''y'', RMap [(''value'', RString ''secret''), (''sensitive'', RBool True)])])
   \<and> as_map (RMap [(''value'', RFloat64 5), (''sensitive'', RBool False)]) \<noteq> None
   \<and> as_map (RMap [(''value'', RString ''secret''), (''sensitive'', RBool True)]) \<noteq> None
   \<and> \<not> HasError []
   \<and> (\<exists>ft fv nt nv.
        Read_outputs [(''x'', RMap [(''value'', RFloat64 5), (''sensitive'', RBool False)]),
                    (''y'', RMap [(''value'', RString ''secret''), (''sensitive'', RBool True)])] [] =
          Inr (StateSet (DynamicKnown (ObjectKnown ft fv)) (DynamicKnown (ObjectKnown nt nv)) [])
        \<and> fst ` set fv = {''x'', ''y''} \<and> fst ` set nv = {''x''})"
proof -
  define outs where "outs = [(''x'', RMap [(''value'', RFloat64 5), (''sensitive'', RBool False)]),
             (''y'', RMap [(''value'', RString ''secret''), (''sensitive'', RBool True)])]"
  have h1: "json_decoded (RMap outs)" unfolding outs_def by simp
  have h2: "\<forall>(x, out) \<in> set outs. as_map out \<noteq> None" unfolding outs_def by simp
  have h3: "\<not> HasError []" by simp
  have k1: "fst ` set outs = {''x'', ''y''}" unfolding outs_def by simp
  have k2: "{x. \<exists>out. (x, out) \<in> set outs \<and> sensitive_field out = RBool False} = {''x''}"
    unfolding outs_def by (auto simp: map_index_def)
  have "\<exists>ft fv nt nv.
        Read_outputs outs [] =
          Inr (StateSet (DynamicKnown (ObjectKnown ft fv)) (DynamicKnown (ObjectKnown nt nv)) [])
        \<and> fst ` set fv = {''x'', ''y''} \<and> fst ` set nv = {''x''}"
    using projections [OF h1 h2 h3] unfolding k1 k2
    by (elim exE conjE) (intro exI conjI; assumption)
  then show ?thesis using h1 h3 unfolding outs_def by simp
qed

text \<open>
  C10. On a decoded map of outputs whose entries are objects, reached with no error in
  the response, every output is in the full projection, and an output is in the
  redacted projection exactly when its \<open>sensitive\<close> field is present and is the boolean
  \<open>false\<close>: an absent field, a null or a value of any other kind keeps the output out of
  the redacted projection.
\<close>

theorem redacted_only_when_sensitive_is_false:
  assumes js: "json_decoded (RMap outputs)"
    and ent: "\<forall>(x, out) \<in> set outputs. as_map out \<noteq> None"
    and ne: "\<not> HasError resp"
    and x: "(x, RMap myOutput) \<in> set outputs"
  shows "\<exists>ft fv nt nv.
     Read_outputs outputs resp =
       Inr (StateSet (DynamicKnown (ObjectKnown ft fv)) (DynamicKnown (ObjectKnown nt nv)) resp)
     \<and> x \<in> fst ` set ft \<and> x \<in> fst ` set fv
     \<and> (x \<in> fst ` set nt \<longleftrightarrow> map_of myOutput ''sensitive'' = Some (RBool False))
     \<and> (x \<in> fst ` set nv \<longleftrightarrow> map_of myOutput ''sensitive'' = Some (RBool False))"
proof -
  let ?N = "filter (\<lambda>(x, out). sensitive_field out = RBool False) outputs"
  let ?ft = "map (\<lambda>(x, out). (x, output_type out)) outputs"
  let ?fv = "map (\<lambda>(x, out). (x, output_value out)) outputs"
  let ?nt = "map (\<lambda>(x, out). (x, output_type out)) ?N"
  let ?nv = "map (\<lambda>(x, out). (x, output_value out)) ?N"
  have d: "distinct (map fst outputs)" using js by simp
  have r: "Read_outputs outputs resp =
       Inr (StateSet (DynamicKnown (ObjectKnown ?ft ?fv)) (DynamicKnown (ObjectKnown ?nt ?nv)) resp)"
    using js ent ne by (rule Read_outputs_json)
  have f: "x \<in> fst ` set ?ft" "x \<in> fst ` set ?fv" using x by force+
  have uniq: "out = RMap myOutput" if "(x, out) \<in> set outputs" for out
    using d x that by (meson eq_key_imp_eq_value)
  have s: "sensitive_field (RMap myOutput) = RBool False
      \<longleftrightarrow> map_of myOutput ''sensitive'' = Some (RBool False)"
    by (auto simp: map_index_def split: option.splits)
  have "x \<in> fst ` set ?N \<longleftrightarrow> sensitive_field (RMap myOutput) = RBool False"
  proof
    assume "x \<in> fst ` set ?N"
    then obtain out where o: "(x, out) \<in> set outputs" "sensitive_field out = RBool False"
      by auto
    from uniq [OF o(1)] o(2) show "sensitive_field (RMap myOutput) = RBool False" by simp
  next
    assume "sensitive_field (RMap myOutput) = RBool False"
    with x have "(x, RMap myOutput) \<in> set ?N" by simp
    then show "x \<in> fst ` set ?N" by (rule rev_image_eqI) simp
  qed
  then have n: "x \<in> fst ` set ?nt \<longleftrightarrow> map_of myOutput ''sensitive'' = Some (RBool False)"
    "x \<in> fst ` set ?nv \<longleftrightarrow> map_of myOutput ''sensitive'' = Some (RBool False)"
    unfolding s by (simp_all add: image_image case_prod_unfold)
  show ?thesis
    apply (rule exI [of _ ?ft], rule exI [of _ ?fv], rule exI [of _ ?nt], rule exI [of _ ?nv])
    apply (intro conjI)
        apply (rule r)
       apply (rule f(1))
      apply (rule f(2))
     apply (rule n(1))
    apply (rule n(2))
    done
qed

text \<open>
  The theorem at an output without a \<open>sensitive\<close> field: it is in the full projection
  and not in the redacted one.
\<close>

theorem redacted_only_when_sensitive_is_false_witness:
  "json_decoded (RMap [(''x'', RMap [(''value'', RFloat64 5)]),
                       (''y'', RMap [(''value'', RString ''s''), (''sensitive'', RBool False)])])
   \<and> as_map (RMap [(''value'', RFloat64 5)]) \<noteq> None
   \<and> as_map (RMap [(''value'', RString ''s''), (''sensitive'', RBool False)]) \<noteq> None
   \<and> \<not> HasError []
   \<and> (''x'', RMap [(''value'', RFloat64 5)])
        \<in> set [(''x'', RMap [(''value'', RFloat64 5)]),
                (''y'', RMap [(''value'', RString ''s''), (''sensitive'', RBool False)])]
   \<and> (\<exists>ft fv nt nv.
        Read_outputs [(''x'', RMap [(''value'', RFloat64 5)]),
                      (''y'', RMap [(''value'', RString ''s''), (''sensitive'', RBool False)])] [] =
          Inr (StateSet (DynamicKnown (ObjectKnown ft fv)) (DynamicKnown (ObjectKnown nt nv)) [])
        \<and> ''x'' \<in> fst ` set fv \<and> ''x'' \<notin> fst ` set nv)"
proof -
  define outs where "outs = [(''x'', RMap [(''value'', RFloat64 5)]),
             (''y'', RMap [(''value'', RString ''s''), (''sensitive'', RBool False)])]"
  have h1: "json_decoded (RMap outs)" unfolding outs_def by simp
  have h2: "\<forall>(x, out) \<in> set outs. as_map out \<noteq> None" unfolding outs_def by simp
  have h3: "\<not> HasError []" by simp
  have h4: "(''x'', RMap [(''value'', RFloat64 5)]) \<in> set outs" unfolding outs_def by simp
  have k: "(map_of [(''value'', RFloat64 5)] ''sensitive'' = Some (RBool False)) = False"
    by simp
  have "\<exists>ft fv nt nv.
        Read_outputs outs [] =
          Inr (StateSet (DynamicKnown (ObjectKnown ft fv)) (DynamicKnown (ObjectKnown nt nv)) [])
        \<and> ''x'' \<in> fst ` set fv \<and> ''x'' \<notin> fst ` set nv"
    using redacted_only_when_sensitive_is_false [OF h1 h2 h3 h4] unfolding k simp_thms
    by (elim exE conjE) (intro exI conjI; assumption)
  then show ?thesis using h1 h3 unfolding outs_def by simp
qed

subsection \<open>Type inference in the output loop\<close>

text \<open>
  The loop of \<open>Read\<close> assigns the error of \<open>inferAttrType\<close> to \<open>_\<close> and has no branch
  on it. On a decoded map of outputs whose entries are objects the error does not
  arise: inference succeeds for the value of every entry, both maps of the full
  projection have every output name, and the diagnostics of the response are returned
  as they came.
\<close>

lemma inference_succeeds_on_json_outputs:
  assumes js: "json_decoded (RMap outputs)"
    and ent: "\<forall>(x, out) \<in> set outputs. as_map out \<noteq> None"
    and ne: "\<not> HasError resp"
  shows "(\<forall>(x, out) \<in> set outputs. \<exists>t. inferAttrType (value_field out) = Inr t)
     \<and> (\<exists>ft fv nt nv.
          Read_outputs outputs resp =
            Inr (StateSet (DynamicKnown (ObjectKnown ft fv)) (DynamicKnown (ObjectKnown nt nv))
                   resp)
        \<and> fst ` set ft = fst ` set outputs \<and> fst ` set fv = fst ` set outputs)"
proof -
  have "\<exists>t. inferAttrType (value_field out) = Inr t" if o: "(x, out) \<in> set outputs" for x out
  proof -
    have "json_decoded out" using js o by (force simp: list_all_iff)
    moreover have "as_map out \<noteq> None" using ent o by blast
    then obtain m where m: "out = RMap m" by (cases out) auto
    ultimately have "json_decoded (value_field out)"
      by (simp only: value_field.simps json_decoded_map_index)
    from infer_then_convert_clean(1) [OF this] show ?thesis by blast
  qed
  then have a: "\<forall>(x, out) \<in> set outputs. \<exists>t. inferAttrType (value_field out) = Inr t"
    by blast
  let ?N = "filter (\<lambda>(x, out). sensitive_field out = RBool False) outputs"
  let ?ft = "map (\<lambda>(x, out). (x, output_type out)) outputs"
  let ?fv = "map (\<lambda>(x, out). (x, output_value out)) outputs"
  let ?nt = "map (\<lambda>(x, out). (x, output_type out)) ?N"
  let ?nv = "map (\<lambda>(x, out). (x, output_value out)) ?N"
  have r: "Read_outputs outputs resp =
       Inr (StateSet (DynamicKnown (ObjectKnown ?ft ?fv)) (DynamicKnown (ObjectKnown ?nt ?nv)) resp)"
    using js ent ne by (rule Read_outputs_json)
  have k1: "fst ` set ?ft = fst ` set outputs" "fst ` set ?fv = fst ` set outputs"
    by force+
  have b: "\<exists>ft fv nt nv.
          Read_outputs outputs resp =
            Inr (StateSet (DynamicKnown (ObjectKnown ft fv)) (DynamicKnown (ObjectKnown nt nv))
                   resp)
        \<and> fst ` set ft = fst ` set outputs \<and> fst ` set fv = fst ` set outputs"
    apply (rule exI [of _ ?ft], rule exI [of _ ?fv], rule exI [of _ ?nt], rule exI [of _ ?nv])
    apply (intro conjI)
      apply (rule r)
     apply (rule k1(1))
    apply (rule k1(2))
    done
  show ?thesis using a b by (rule conjI)
qed

text \<open>
  Run on a value of a kind that \<open>json.Unmarshal\<close> does not produce (here a Go
  \<open>uint\<close>), the loop stores the nil descriptor and the nil value under the name of
  the output, in all four maps.
\<close>

lemma outputs_loop_stores_nil:
  "outputs_loop [''x'', ''y'']
       [(''x'', RMap [(''value'', ROther ''uint''), (''sensitive'', RBool False)]),
        (''y'', RMap [(''value'', RString ''s''), (''sensitive'', RBool False)])]
       \<lparr>sensitiveTypes = [], sensitiveValues = [], nonSensitiveTypes = [],
        nonSensitiveValues = []\<rparr> =
     Inr (Some
       \<lparr>sensitiveTypes = [(''x'', None), (''y'', Some StringType)],
        sensitiveValues = [(''x'', None), (''y'', Some (StringValue ''s''))],
        nonSensitiveTypes = [(''x'', None), (''y'', Some StringType)],
        nonSensitiveValues = [(''x'', None), (''y'', Some (StringValue ''s''))]\<rparr>)"
  by (simp add: map_index_def convertToAttrValue.simps Let_def)

end
